theory Spec2Isabelle
  imports Complex_Main "HOL-Library.Sublist" "HOL-Library.Multiset"
begin

section \<open>The persistent store (database.py)\<close>

text \<open>
  The two tables of \<^verbatim>\<open>Database._init_schema\<close>. A row is a record; a table is the list
  of its rows in rowid order. \<^verbatim>\<open>CURRENT_TIMESTAMP\<close> values are modelled as a number of
  seconds (SQLite stores the text \<^verbatim>\<open>YYYY-MM-DD HH:MM:SS\<close>, whose text order is the order of
  the instants). The column \<^verbatim>\<open>id\<close> is written \<open>conv_id\<close> and \<open>msg_id\<close>.
\<close>

record conversation =
  conv_id :: int
  title :: string
  created_at :: nat
  updated_at :: nat
  status :: string

record message =
  msg_id :: int
  conversation_id :: int
  role :: string
  content :: string
  timestamp :: nat
  audio_duration :: "real option"

text \<open>
  The database file: both tables and the \<^verbatim>\<open>sqlite_sequence\<close> entries that
  \<^verbatim>\<open>AUTOINCREMENT\<close> keeps for them.
\<close>

record database =
  conversations :: "conversation list"
  messages :: "message list"
  conversations_seq :: int
  messages_seq :: int

text \<open>
  What the SQLite engine raises: \<^verbatim>\<open>sqlite3.OperationalError\<close> (locked file, I/O error;
  it can come from any statement and from opening the file) and \<^verbatim>\<open>sqlite3.IntegrityError\<close>
  (a constraint). Both are subclasses of \<^verbatim>\<open>sqlite3.Error\<close>.
\<close>

datatype sqlite_error = OperationalError string | IntegrityError string

text \<open>
  The environment of one statement: the value of \<^verbatim>\<open>CURRENT_TIMESTAMP\<close> it sees, and the
  operational error the engine raises in it, if any. An operation receives one
  environment per statement it executes, numbered from 0.
\<close>

record stmt_io =
  now :: nat
  failure :: "string option"

text \<open>
  A connection (\<^verbatim>\<open>sqlite3.connect\<close>, default isolation level): statements change the
  pending state of the open transaction, \<^verbatim>\<open>commit\<close> makes it durable,
  \<^verbatim>\<open>rollback\<close> drops it, and \<^verbatim>\<open>close\<close> leaves what was committed.
\<close>

record connection =
  committed :: database
  pending :: database

definition connect :: "database \<Rightarrow> connection" where
  "connect db = \<lparr>committed = db, pending = db\<rparr>"

definition commit :: "stmt_io \<Rightarrow> connection \<Rightarrow> sqlite_error + connection" where
  "commit io c =
     (case failure io of
        Some e \<Rightarrow> Inl (OperationalError e)
      | None \<Rightarrow> Inr (c\<lparr>committed := pending c\<rparr>))"

definition rollback :: "connection \<Rightarrow> connection" where
  "rollback c = c\<lparr>pending := committed c\<rparr>"

definition close :: "connection \<Rightarrow> database" where
  "close c = committed c"

text \<open>
  \<^verbatim>\<open>Database._get_connection\<close>: the body runs on a fresh connection; on
  \<^verbatim>\<open>sqlite3.Error\<close> the handler rolls back and re-raises; \<^verbatim>\<open>finally\<close> closes.
\<close>

definition get_connection ::
  "database \<Rightarrow> (connection \<Rightarrow> (sqlite_error + 'a) \<times> connection) \<Rightarrow> (sqlite_error + 'a) \<times> database"
where
  "get_connection db body =
     (case body (connect db) of
        (Inl e, c) \<Rightarrow> (Inl e, close (rollback c))
      | (Inr v, c) \<Rightarrow> (Inr v, close c))"

subsection \<open>Statements\<close>

text \<open>
  \<^verbatim>\<open>INTEGER PRIMARY KEY AUTOINCREMENT\<close>: the new rowid is one more than the largest rowid
  the table ever held (the larger of the sequence entry and the ids present).
\<close>

definition next_rowid :: "int \<Rightarrow> int list \<Rightarrow> int" where
  "next_rowid seq ids = fold max ids seq + 1"

text \<open>
  \<^verbatim>\<open>INSERT INTO conversations (title, status, created_at, updated_at)
  VALUES (?, 'active', CURRENT_TIMESTAMP, CURRENT_TIMESTAMP)\<close>; yields \<^verbatim>\<open>cursor.lastrowid\<close>.
\<close>

definition insert_conversation ::
  "stmt_io \<Rightarrow> string \<Rightarrow> connection \<Rightarrow> sqlite_error + (int \<times> connection)"
where
  "insert_conversation io ttl c =
     (case failure io of
        Some e \<Rightarrow> Inl (OperationalError e)
      | None \<Rightarrow>
          (let db = pending c;
               i = next_rowid (conversations_seq db) (map conv_id (conversations db));
               row = \<lparr>conv_id = i, title = ttl, created_at = now io, updated_at = now io,
                      status = ''active''\<rparr>
           in Inr (i, c\<lparr>pending := db\<lparr>conversations := conversations db @ [row],
                                        conversations_seq := i\<rparr>\<rparr>)))"

text \<open>\<^verbatim>\<open>SELECT * FROM conversations WHERE id = ?\<close> with \<^verbatim>\<open>fetchone\<close>.\<close>

definition select_conversation ::
  "stmt_io \<Rightarrow> int \<Rightarrow> connection \<Rightarrow> sqlite_error + conversation option"
where
  "select_conversation io cid c =
     (case failure io of
        Some e \<Rightarrow> Inl (OperationalError e)
      | None \<Rightarrow> Inr (find (\<lambda>r. conv_id r = cid) (conversations (pending c))))"

text \<open>
  \<^verbatim>\<open>ORDER BY updated_at DESC\<close>: a stable sort of the scanned rows on the descending key.
\<close>

definition order_by_updated_desc :: "('a \<Rightarrow> nat) \<Rightarrow> 'a list \<Rightarrow> 'a list" where
  "order_by_updated_desc key rows = sort_key (\<lambda>r. - int (key r)) rows"

text \<open>\<^verbatim>\<open>LIMIT ?\<close>: a negative limit means no limit.\<close>

definition limit_rows :: "int \<Rightarrow> 'a list \<Rightarrow> 'a list" where
  "limit_rows n rows = (if n < 0 then rows else take (nat n) rows)"

text \<open>
  \<^verbatim>\<open>SELECT * FROM conversations WHERE status = 'active' ORDER BY updated_at DESC LIMIT 1\<close>
  with \<^verbatim>\<open>fetchone\<close>.
\<close>

definition select_last_active :: "stmt_io \<Rightarrow> connection \<Rightarrow> sqlite_error + conversation option" where
  "select_last_active io c =
     (case failure io of
        Some e \<Rightarrow> Inl (OperationalError e)
      | None \<Rightarrow>
          (case limit_rows 1 (order_by_updated_desc updated_at
                  (filter (\<lambda>r. status r = ''active'') (conversations (pending c)))) of
             [] \<Rightarrow> Inr None
           | r # _ \<Rightarrow> Inr (Some r)))"

text \<open>
  The listing query of \<^verbatim>\<open>list_conversations\<close>:
  \<^verbatim>\<open>SELECT c.*, COUNT(m.id) as message_count, MAX(m.timestamp) as last_message_time
  FROM conversations c LEFT JOIN messages m ON c.id = m.conversation_id
  GROUP BY c.id ORDER BY c.updated_at DESC LIMIT ?\<close>.
  The left join keeps a conversation without messages as one row whose message columns
  are NULL (\<open>None\<close>); \<open>id\<close> is the primary key, so a group is the joined rows of one
  conversation; \<^verbatim>\<open>COUNT(m.id)\<close> counts the rows whose \<^verbatim>\<open>m.id\<close> is not NULL and
  \<^verbatim>\<open>MAX\<close> is NULL when there is none.
\<close>

record listing =
  conv :: conversation
  message_count :: nat
  last_message_time :: "nat option"

definition left_join :: "conversation \<Rightarrow> message list \<Rightarrow> message option list" where
  "left_join c ms =
     (case filter (\<lambda>m. conv_id c = conversation_id m) ms of
        [] \<Rightarrow> [None]
      | m # rest \<Rightarrow> map Some (m # rest))"

fun count_ids :: "message option list \<Rightarrow> nat" where
  "count_ids [] = 0"
| "count_ids (None # rows) = count_ids rows"
| "count_ids (Some m # rows) = Suc (count_ids rows)"

fun max_timestamp :: "message option list \<Rightarrow> nat option" where
  "max_timestamp [] = None"
| "max_timestamp (None # rows) = max_timestamp rows"
| "max_timestamp (Some m # rows) =
     (case max_timestamp rows of
        None \<Rightarrow> Some (timestamp m)
      | Some t \<Rightarrow> Some (max (timestamp m) t))"

definition group_row :: "message list \<Rightarrow> conversation \<Rightarrow> listing" where
  "group_row ms c =
     \<lparr>conv = c, message_count = count_ids (left_join c ms),
      last_message_time = max_timestamp (left_join c ms)\<rparr>"

definition select_listing :: "stmt_io \<Rightarrow> int \<Rightarrow> connection \<Rightarrow> sqlite_error + listing list" where
  "select_listing io n c =
     (case failure io of
        Some e \<Rightarrow> Inl (OperationalError e)
      | None \<Rightarrow>
          Inr (limit_rows n
                 (order_by_updated_desc (\<lambda>r. updated_at (conv r))
                    (map (group_row (messages (pending c))) (conversations (pending c))))))"

text \<open>
  \<^verbatim>\<open>UPDATE conversations SET status = ?, updated_at = CURRENT_TIMESTAMP WHERE id = ?\<close>.
\<close>

definition update_status_stmt ::
  "stmt_io \<Rightarrow> int \<Rightarrow> string \<Rightarrow> connection \<Rightarrow> sqlite_error + connection"
where
  "update_status_stmt io cid st c =
     (case failure io of
        Some e \<Rightarrow> Inl (OperationalError e)
      | None \<Rightarrow>
          (let db = pending c
           in Inr (c\<lparr>pending := db\<lparr>conversations :=
                      map (\<lambda>r. if conv_id r = cid then r\<lparr>status := st, updated_at := now io\<rparr> else r)
                          (conversations db)\<rparr>\<rparr>)))"

text \<open>
  \<^verbatim>\<open>INSERT INTO messages (conversation_id, role, content, timestamp, audio_duration)
  VALUES (?, ?, ?, CURRENT_TIMESTAMP, ?)\<close>; yields \<^verbatim>\<open>cursor.lastrowid\<close>. The connection
  runs with \<^verbatim>\<open>PRAGMA foreign_keys = ON\<close>, so a conversation id that is not in
  \<open>conversations\<close> raises an integrity error.
\<close>

definition insert_message ::
  "stmt_io \<Rightarrow> int \<Rightarrow> string \<Rightarrow> string \<Rightarrow> real option \<Rightarrow> connection
     \<Rightarrow> sqlite_error + (int \<times> connection)"
where
  "insert_message io cid r txt dur c =
     (case failure io of
        Some e \<Rightarrow> Inl (OperationalError e)
      | None \<Rightarrow>
          (let db = pending c
           in if cid \<notin> set (map conv_id (conversations db))
              then Inl (IntegrityError ''FOREIGN KEY constraint failed'')
              else
                (let i = next_rowid (messages_seq db) (map msg_id (messages db));
                     row = \<lparr>msg_id = i, conversation_id = cid, role = r, content = txt,
                            timestamp = now io, audio_duration = dur\<rparr>
                 in Inr (i, c\<lparr>pending := db\<lparr>messages := messages db @ [row],
                                              messages_seq := i\<rparr>\<rparr>))))"

text \<open>\<^verbatim>\<open>UPDATE conversations SET updated_at = CURRENT_TIMESTAMP WHERE id = ?\<close>.\<close>

definition touch_conversation :: "stmt_io \<Rightarrow> int \<Rightarrow> connection \<Rightarrow> sqlite_error + connection" where
  "touch_conversation io cid c =
     (case failure io of
        Some e \<Rightarrow> Inl (OperationalError e)
      | None \<Rightarrow>
          (let db = pending c
           in Inr (c\<lparr>pending := db\<lparr>conversations :=
                      map (\<lambda>r. if conv_id r = cid then r\<lparr>updated_at := now io\<rparr> else r)
                          (conversations db)\<rparr>\<rparr>)))"


subsection \<open>Operations of the class Database\<close>

text \<open>
  \<^verbatim>\<open>create_conversation\<close>. \<open>local_now\<close> is the text of
  \<^verbatim>\<open>datetime.now().strftime('%Y-%m-%d %H:%M:%S')\<close>; \<^verbatim>\<open>if not title\<close> holds for
  \<^verbatim>\<open>None\<close> and for the empty string.
\<close>

definition default_title :: "string \<Rightarrow> string option \<Rightarrow> string" where
  "default_title local_now ttl =
     (case ttl of
        None \<Rightarrow> ''Conversation '' @ local_now
      | Some s \<Rightarrow> if s = [] then ''Conversation '' @ local_now else s)"

definition create_conversation ::
  "(nat \<Rightarrow> stmt_io) \<Rightarrow> string \<Rightarrow> database \<Rightarrow> string option \<Rightarrow> (sqlite_error + int) \<times> database"
where
  "create_conversation io local_now db ttl =
     get_connection db (\<lambda>c.
       case insert_conversation (io 0) (default_title local_now ttl) c of
         Inl e \<Rightarrow> (Inl e, c)
       | Inr (new_id, c1) \<Rightarrow>
           (case commit (io 1) c1 of
              Inl e \<Rightarrow> (Inl e, c1)
            | Inr c2 \<Rightarrow> (Inr new_id, c2)))"

definition get_conversation ::
  "(nat \<Rightarrow> stmt_io) \<Rightarrow> database \<Rightarrow> int \<Rightarrow> (sqlite_error + conversation option) \<times> database"
where
  "get_conversation io db cid =
     get_connection db (\<lambda>c.
       case select_conversation (io 0) cid c of
         Inl e \<Rightarrow> (Inl e, c)
       | Inr row \<Rightarrow> (Inr row, c))"

definition get_last_active_conversation ::
  "(nat \<Rightarrow> stmt_io) \<Rightarrow> database \<Rightarrow> (sqlite_error + conversation option) \<times> database"
where
  "get_last_active_conversation io db =
     get_connection db (\<lambda>c.
       case select_last_active (io 0) c of
         Inl e \<Rightarrow> (Inl e, c)
       | Inr row \<Rightarrow> (Inr row, c))"

definition list_conversations ::
  "(nat \<Rightarrow> stmt_io) \<Rightarrow> database \<Rightarrow> int \<Rightarrow> (sqlite_error + listing list) \<times> database"
where
  "list_conversations io db n =
     get_connection db (\<lambda>c.
       case select_listing (io 0) n c of
         Inl e \<Rightarrow> (Inl e, c)
       | Inr rows \<Rightarrow> (Inr rows, c))"

definition update_conversation_status ::
  "(nat \<Rightarrow> stmt_io) \<Rightarrow> database \<Rightarrow> int \<Rightarrow> string \<Rightarrow> (sqlite_error + unit) \<times> database"
where
  "update_conversation_status io db cid st =
     get_connection db (\<lambda>c.
       case update_status_stmt (io 0) cid st c of
         Inl e \<Rightarrow> (Inl e, c)
       | Inr c1 \<Rightarrow>
           (case commit (io 1) c1 of
              Inl e \<Rightarrow> (Inl e, c1)
            | Inr c2 \<Rightarrow> (Inr (), c2)))"

definition add_message ::
  "(nat \<Rightarrow> stmt_io) \<Rightarrow> database \<Rightarrow> int \<Rightarrow> string \<Rightarrow> string \<Rightarrow> real option
     \<Rightarrow> (sqlite_error + int) \<times> database"
where
  "add_message io db cid r txt dur =
     get_connection db (\<lambda>c.
       case insert_message (io 0) cid r txt dur c of
         Inl e \<Rightarrow> (Inl e, c)
       | Inr (message_id, c1) \<Rightarrow>
           (case touch_conversation (io 1) cid c1 of
              Inl e \<Rightarrow> (Inl e, c1)
            | Inr c2 \<Rightarrow>
                (case commit (io 2) c2 of
                   Inl e \<Rightarrow> (Inl e, c2)
                 | Inr c3 \<Rightarrow> (Inr message_id, c3))))"


section \<open>Exceptions\<close>

text \<open>
  The exceptions the coordinator distinguishes. \<open>Exception\<close> stands for every instance of
  Python's \<^verbatim>\<open>Exception\<close>, with the qualified name of its class and the text of
  \<^verbatim>\<open>str(e)\<close>; \<open>KeyboardInterrupt\<close> and \<open>CancelledError\<close> derive from
  \<^verbatim>\<open>BaseException\<close> only, so \<^verbatim>\<open>except Exception\<close> does not catch them.
\<close>

datatype exn = KeyboardInterrupt | CancelledError | Exception string string

fun raise_sqlite :: "sqlite_error \<Rightarrow> exn" where
  "raise_sqlite (OperationalError s) = Exception ''sqlite3.OperationalError'' s"
| "raise_sqlite (IntegrityError s) = Exception ''sqlite3.IntegrityError'' s"

text \<open>\<^verbatim>\<open>str(type(e))\<close> for a class name.\<close>

definition str_type :: "string \<Rightarrow> string" where
  "str_type cls = ''<class '' @ [CHR 0x27] @ cls @ [CHR 0x27] @ ''>''"

section \<open>Configuration (config.py)\<close>

text \<open>
  \<open>environ\<close> is \<^verbatim>\<open>os.environ\<close> after \<^verbatim>\<open>load_dotenv\<close>. \<^verbatim>\<open>str.lower\<close> is
  modelled on the ASCII letters.
\<close>

type_synonym environ = "string \<Rightarrow> string option"

record config =
  hume_api_key :: string
  hume_config_id :: string
  allow_interrupt :: bool
  db_path :: string
  ssl_cert_file :: "string option"

definition lower_char :: "char \<Rightarrow> char" where
  "lower_char c =
     (case map_of (zip ''ABCDEFGHIJKLMNOPQRSTUVWXYZ'' ''abcdefghijklmnopqrstuvwxyz'') c of
        None \<Rightarrow> c
      | Some l \<Rightarrow> l)"

definition str_lower :: "string \<Rightarrow> string" where
  "str_lower s = map lower_char s"

text \<open>The arrow of the hint lines (U+2192 in UTF-8) and the line break.\<close>

definition arrow :: string where
  "arrow = [CHR 0xE2, CHR 0x86, CHR 0x92]"

definition api_key_hint :: string where
  "api_key_hint =
     ''For HUME_API_KEY: Get from https://platform.hume.ai/ '' @ arrow @ '' Settings '' @ arrow
       @ '' API Keys''"

definition config_id_hint :: string where
  "config_id_hint =
     ''For HUME_CONFIG_ID: Create EVI config at https://platform.hume.ai/ '' @ arrow @ '' EVI ''
       @ arrow @ '' Create Configuration''"

definition not_configured_message :: "string \<Rightarrow> string" where
  "not_configured_message key =
     key @ '' not found or not configured. Set it in .env file or environment variable.''
       @ [CHR 0x0A] @ api_key_hint @ [CHR 0x0A] @ config_id_hint"

definition get_required_env :: "environ \<Rightarrow> string \<Rightarrow> exn + string" where
  "get_required_env environ key =
     (case environ key of
        None \<Rightarrow> Inl (Exception ''ValueError'' (not_configured_message key))
      | Some v \<Rightarrow>
          if v = [] \<or> v = ''your_'' @ str_lower key @ ''_here''
          then Inl (Exception ''ValueError'' (not_configured_message key))
          else Inr v)"

text \<open>
  \<^verbatim>\<open>Config.__init__\<close>; \<open>cli_dir\<close> is the directory of the module, where the default
  database file lives.
\<close>

definition config_init :: "string \<Rightarrow> environ \<Rightarrow> exn + config" where
  "config_init cli_dir environ =
     (case get_required_env environ ''HUME_API_KEY'' of
        Inl e \<Rightarrow> Inl e
      | Inr k \<Rightarrow>
          (case get_required_env environ ''HUME_CONFIG_ID'' of
             Inl e \<Rightarrow> Inl e
           | Inr i \<Rightarrow>
               Inr \<lparr>hume_api_key = k, hume_config_id = i,
                    allow_interrupt =
                      (str_lower (case environ ''ALLOW_INTERRUPT'' of None \<Rightarrow> ''false'' | Some v \<Rightarrow> v)
                         = ''true''),
                    db_path =
                      (case environ ''DB_PATH'' of
                         None \<Rightarrow> cli_dir @ ''/conversations.db''
                       | Some p \<Rightarrow> if p = [] then cli_dir @ ''/conversations.db'' else p),
                    ssl_cert_file = environ ''SSL_CERT_FILE''\<rparr>))"

definition get_config :: "string \<Rightarrow> environ \<Rightarrow> exn + config" where
  "get_config cli_dir environ = config_init cli_dir environ"

definition interruption_enabled :: "config \<Rightarrow> bool" where
  "interruption_enabled c = allow_interrupt c"

section \<open>The coordinator (conversation_manager.py, evi_client.py, audio_handler.py)\<close>

text \<open>
  An event of the channel (\<^verbatim>\<open>SubscribeEvent\<close>): its \<^verbatim>\<open>type\<close>, the \<^verbatim>\<open>data\<close> of an
  audio frame, and the text the handler reads from it
  (\<^verbatim>\<open>message.message.content\<close>, or \<^verbatim>\<open>str(message)\<close> without that attribute).
\<close>

record subscribe_event =
  ev_type :: string
  ev_data :: string
  ev_content :: string

text \<open>
  \<^verbatim>\<open>EVIClient\<close>. Only \<^verbatim>\<open>ConversationManager._save_message_callback\<close> is ever
  registered, so \<open>message_callbacks\<close> is the number of its registrations;
  \<open>audio_stream\<close> says whether the playback stream was set (it is the stream of the audio
  handler).
\<close>

record evi_client =
  api_key :: string
  config_id :: string
  message_callbacks :: nat
  audio_stream :: bool

definition evi_client_init :: "string \<Rightarrow> string \<Rightarrow> exn + evi_client" where
  "evi_client_init k i =
     (if k = [] then Inl (Exception ''ValueError'' ''api_key is required'')
      else if i = [] then Inl (Exception ''ValueError'' ''config_id is required'')
      else Inr \<lparr>api_key = k, config_id = i, message_callbacks = 0, audio_stream = False\<rparr>)"

text \<open>What is shown on the console (the rich markup is left out).\<close>

datatype console =
    Connecting
  | NotFound int
  | Resumed int
  | StartedNew int
  | Connected
  | StartingMicrophone
  | PressCtrlC
  | InterruptionSetting bool
  | InterruptionEnabled
  | WalkieTalkieMode
  | ShuttingDown
  | Stopping
  | InterruptedByUser
  | SessionEnded
  | ConversationSaved
  | ResumeCommand
  | ErrorText string
  | Disconnected
  | EVI string
  | You string
  | SystemText string
  | NoActiveConversation
  | Resuming int

text \<open>The calls the coordinator makes on the store.\<close>

datatype store_call =
    CreateConversation
  | GetConversation int
  | GetLastActiveConversation
  | UpdateConversationStatus int string
  | AddMessage int string string

text \<open>
  What a run does, in order: console output, \<^verbatim>\<open>logger.error\<close> and
  \<^verbatim>\<open>logger.exception\<close> records, calls on the store, and what happens to the channel
  and the microphone.
\<close>

datatype action =
    Print console
  | Log string
  | Store store_call
  | ChannelOpened
  | ChannelClosed
  | MicrophoneStarted bool
  | MicrophoneStopped

text \<open>
  \<^verbatim>\<open>ConversationManager\<close>: its fields, the database file behind \<^verbatim>\<open>self.db\<close>, the
  queue of the audio handler's stream, the number of store operations made so far, and
  the actions so far.
\<close>

record manager =
  cfg :: config
  db :: database
  evi :: "evi_client option"
  playback :: "string list"
  current_conversation_id :: "int option"
  running :: bool
  store_ops :: nat
  out :: "action list"

text \<open>How the capture and playback loop (\<^verbatim>\<open>MicrophoneInterface.start\<close>) ends.\<close>

datatype ending = Returns | Signal | Raises exn

text \<open>
  What the outside world does in one run: the statement environments of the k-th store
  operation, the local time text read by the k-th store operation, the base64 decoder
  (\<open>None\<close> when it raises), the exception of opening the channel (if any), the events
  the channel delivers while the loop runs, how the loop ends, and the exception of
  closing the channel (if any).
\<close>

record world =
  store_io :: "nat \<Rightarrow> nat \<Rightarrow> stmt_io"
  local_time :: "nat \<Rightarrow> string"
  b64decode :: "string \<Rightarrow> string option"
  channel_open :: "exn option"
  events :: "subscribe_event list"
  mic_end :: ending
  close_error :: "exn option"

definition emit :: "action \<Rightarrow> manager \<Rightarrow> manager" where
  "emit a m = m\<lparr>out := out m @ [a]\<rparr>"

text \<open>\<^verbatim>\<open>ConversationManager.__init__\<close> with a configuration, on the database file \<open>d\<close>.\<close>

definition new_manager :: "config \<Rightarrow> database \<Rightarrow> manager" where
  "new_manager c d =
     \<lparr>cfg = c, db = d, evi = None, playback = [], current_conversation_id = None,
      running = False, store_ops = 0, out = []\<rparr>"

subsection \<open>Calls on the store\<close>

definition after_store :: "store_call \<Rightarrow> database \<Rightarrow> manager \<Rightarrow> manager" where
  "after_store call d m = m\<lparr>db := d, store_ops := Suc (store_ops m), out := out m @ [Store call]\<rparr>"

definition db_create_conversation :: "world \<Rightarrow> manager \<Rightarrow> (sqlite_error + int) \<times> manager" where
  "db_create_conversation w m =
     (case create_conversation (store_io w (store_ops m)) (local_time w (store_ops m)) (db m) None of
        (r, d) \<Rightarrow> (r, after_store CreateConversation d m))"

definition db_get_conversation ::
  "world \<Rightarrow> manager \<Rightarrow> int \<Rightarrow> (sqlite_error + conversation option) \<times> manager"
where
  "db_get_conversation w m cid =
     (case get_conversation (store_io w (store_ops m)) (db m) cid of
        (r, d) \<Rightarrow> (r, after_store (GetConversation cid) d m))"

definition db_get_last_active_conversation ::
  "world \<Rightarrow> manager \<Rightarrow> (sqlite_error + conversation option) \<times> manager"
where
  "db_get_last_active_conversation w m =
     (case get_last_active_conversation (store_io w (store_ops m)) (db m) of
        (r, d) \<Rightarrow> (r, after_store GetLastActiveConversation d m))"

definition db_update_conversation_status ::
  "world \<Rightarrow> manager \<Rightarrow> int \<Rightarrow> string \<Rightarrow> (sqlite_error + unit) \<times> manager"
where
  "db_update_conversation_status w m cid st =
     (case update_conversation_status (store_io w (store_ops m)) (db m) cid st of
        (r, d) \<Rightarrow> (r, after_store (UpdateConversationStatus cid st) d m))"

definition db_add_message ::
  "world \<Rightarrow> manager \<Rightarrow> int \<Rightarrow> string \<Rightarrow> string \<Rightarrow> (sqlite_error + int) \<times> manager"
where
  "db_add_message w m cid r txt =
     (case add_message (store_io w (store_ops m)) (db m) cid r txt None of
        (res, d) \<Rightarrow> (res, after_store (AddMessage cid r txt) d m))"

subsection \<open>Event handling\<close>

text \<open>
  \<^verbatim>\<open>ConversationManager._save_message_callback\<close>. The guard
  \<^verbatim>\<open>role != "system" and self.current_conversation_id\<close> is false for \<^verbatim>\<open>None\<close> and for 0;
  \<^verbatim>\<open>except Exception\<close> catches every error of the store.
\<close>

definition save_message_callback :: "world \<Rightarrow> string \<Rightarrow> string \<Rightarrow> manager \<Rightarrow> manager" where
  "save_message_callback w r txt m =
     (let m1 =
        (case current_conversation_id m of
           None \<Rightarrow> m
         | Some cid \<Rightarrow>
             if r \<noteq> ''system'' \<and> cid \<noteq> 0
             then (case db_add_message w m cid r txt of
                     (Inl e, m') \<Rightarrow> emit (Log ''Failed to save message'') m'
                   | (Inr message_id, m') \<Rightarrow> m')
             else m)
      in if r = ''assistant'' then emit (Print (EVI txt)) m1
         else if r = ''user'' then emit (Print (You txt)) m1
         else if r = ''system'' then emit (Print (SystemText txt)) m1
         else m1)"

text \<open>\<^verbatim>\<open>for callback in self.message_callbacks: callback(role, content)\<close>.\<close>

definition notify :: "world \<Rightarrow> nat \<Rightarrow> string \<Rightarrow> string \<Rightarrow> manager \<Rightarrow> manager" where
  "notify w n r txt m = (save_message_callback w r txt ^^ n) m"

text \<open>
  \<^verbatim>\<open>EVIClient._handle_message\<close>. The only step that can raise is the decoding of an audio
  frame; the handler logs it.
\<close>

definition handle_message :: "world \<Rightarrow> subscribe_event \<Rightarrow> manager \<Rightarrow> manager" where
  "handle_message w ev m =
     (case evi m of
        None \<Rightarrow> m
      | Some cl \<Rightarrow>
          if ev_type ev = ''audio_output'' then
            (if audio_stream cl
             then (case b64decode w (ev_data ev) of
                     None \<Rightarrow> emit (Log ''Error handling message'') m
                   | Some frame \<Rightarrow> m\<lparr>playback := playback m @ [frame]\<rparr>)
             else m)
          else if ev_type ev = ''user_interruption'' then
            notify w (message_callbacks cl) ''system'' ''[Interrupted]''
              (if audio_stream cl then m\<lparr>playback := []\<rparr> else m)
          else if ev_type ev = ''user_message'' then
            notify w (message_callbacks cl) ''user'' (ev_content ev) m
          else if ev_type ev = ''assistant_message'' then
            notify w (message_callbacks cl) ''assistant'' (ev_content ev) m
          else
            notify w (message_callbacks cl) ''system'' (''['' @ ev_type ev @ '']'') m)"

primrec run_events :: "world \<Rightarrow> subscribe_event list \<Rightarrow> manager \<Rightarrow> manager" where
  "run_events w [] m = m"
| "run_events w (ev # evs) m = run_events w evs (handle_message w ev m)"

subsection \<open>The session\<close>

text \<open>\<^verbatim>\<open>ConversationManager._handle_exit\<close>, the handler of SIGINT and SIGTERM.\<close>

definition handle_exit :: "manager \<Rightarrow> (exn + unit) \<times> manager" where
  "handle_exit m = (Inl KeyboardInterrupt, (emit (Print ShuttingDown) m)\<lparr>running := False\<rparr>)"

text \<open>
  \<^verbatim>\<open>AudioHandler.start_microphone\<close>: the loop runs, the channel delivers its events to
  the handler, and the loop ends as the world says; an \<^verbatim>\<open>Exception\<close> is logged and
  raised again.
\<close>

definition start_microphone :: "world \<Rightarrow> bool \<Rightarrow> manager \<Rightarrow> (exn + unit) \<times> manager" where
  "start_microphone w allow m =
     (let m1 = run_events w (events w) (emit (MicrophoneStarted allow) m)
      in case mic_end w of
           Returns \<Rightarrow> (Inr (), m1)
         | Signal \<Rightarrow> handle_exit m1
         | Raises KeyboardInterrupt \<Rightarrow> (Inl KeyboardInterrupt, m1)
         | Raises CancelledError \<Rightarrow> (Inl CancelledError, m1)
         | Raises (Exception cls msg) \<Rightarrow>
             (Inl (Exception cls msg), emit (Log ''Error starting microphone'') m1))"

text \<open>\<^verbatim>\<open>AudioHandler.stop_microphone\<close>: it only writes an info record.\<close>

definition stop_microphone :: "manager \<Rightarrow> manager" where
  "stop_microphone m = emit MicrophoneStopped m"

text \<open>
  The body of \<^verbatim>\<open>async with self.evi_client.get_connection() as chat_socket\<close>, with its
  inner \<^verbatim>\<open>try ... except KeyboardInterrupt\<close>.
\<close>

definition active_session :: "world \<Rightarrow> manager \<Rightarrow> (exn + unit) \<times> manager" where
  "active_session w m =
     (let m1 = emit (Print PressCtrlC) (emit (Print StartingMicrophone) (emit (Print Connected) m));
          m2 = m1\<lparr>running := True\<rparr>;
          allow = interruption_enabled (cfg m2);
          m3 = emit (Print (InterruptionSetting allow)) m2;
          m4 = emit (Print (if allow then InterruptionEnabled else WalkieTalkieMode)) m3
      in case start_microphone w allow m4 of
           (Inl KeyboardInterrupt, m5) \<Rightarrow> (Inr (), emit (Print Stopping) m5)
         | (Inl CancelledError, m5) \<Rightarrow> (Inl CancelledError, m5)
         | (Inl (Exception cls msg), m5) \<Rightarrow> (Inl (Exception cls msg), m5)
         | (Inr u, m5) \<Rightarrow> (Inr (), m5))"

text \<open>
  The \<^verbatim>\<open>async with\<close> statement: opening may raise; leaving the block closes the
  channel, and an exception of the close replaces the outcome of the block.
\<close>

definition connection_scope :: "world \<Rightarrow> manager \<Rightarrow> (exn + unit) \<times> manager" where
  "connection_scope w m =
     (case channel_open w of
        Some e \<Rightarrow> (Inl e, m)
      | None \<Rightarrow>
          (case active_session w (emit ChannelOpened m) of
             (r, m1) \<Rightarrow>
               (case close_error w of
                  Some e \<Rightarrow> (Inl e, emit ChannelClosed m1)
                | None \<Rightarrow> (r, emit ChannelClosed m1))))"

text \<open>
  The two branches of \<^verbatim>\<open>if conversation_id: ... else: ...\<close> in
  \<^verbatim>\<open>start_conversation\<close>. The result \<open>Inr False\<close> is the early \<^verbatim>\<open>return\<close> after
  "not found"; \<open>Inr True\<close> goes on to the connection.
\<close>

definition resume_conversation :: "world \<Rightarrow> manager \<Rightarrow> int \<Rightarrow> (exn + bool) \<times> manager" where
  "resume_conversation w m cid =
     (case db_get_conversation w m cid of
        (Inl e, m1) \<Rightarrow> (Inl (raise_sqlite e), m1)
      | (Inr None, m1) \<Rightarrow> (Inr False, emit (Print (NotFound cid)) m1)
      | (Inr (Some c), m1) \<Rightarrow>
          (case db_update_conversation_status w (m1\<lparr>current_conversation_id := Some cid\<rparr>)
                  cid ''active'' of
             (Inl e, m2) \<Rightarrow> (Inl (raise_sqlite e), m2)
           | (Inr u, m2) \<Rightarrow> (Inr True, emit (Print (Resumed cid)) m2)))"

definition new_conversation :: "world \<Rightarrow> manager \<Rightarrow> (exn + bool) \<times> manager" where
  "new_conversation w m =
     (case db_create_conversation w m of
        (Inl e, m1) \<Rightarrow> (Inl (raise_sqlite e), m1)
      | (Inr new_id, m1) \<Rightarrow>
          (Inr True, emit (Print (StartedNew new_id)) (m1\<lparr>current_conversation_id := Some new_id\<rparr>)))"

text \<open>The test \<^verbatim>\<open>if conversation_id\<close> is false for \<^verbatim>\<open>None\<close> and for 0.\<close>

definition set_up_conversation :: "world \<Rightarrow> manager \<Rightarrow> int option \<Rightarrow> (exn + bool) \<times> manager" where
  "set_up_conversation w m conversation =
     (case conversation of
        None \<Rightarrow> new_conversation w m
      | Some cid \<Rightarrow> if cid \<noteq> 0 then resume_conversation w m cid else new_conversation w m)"

text \<open>\<^verbatim>\<open>on_message(self._save_message_callback)\<close> and \<^verbatim>\<open>set_audio_stream\<close>.\<close>

definition register_callbacks :: "manager \<Rightarrow> manager" where
  "register_callbacks m =
     (case evi m of
        None \<Rightarrow> m
      | Some cl \<Rightarrow>
          m\<lparr>evi := Some (cl\<lparr>message_callbacks := Suc (message_callbacks cl), audio_stream := True\<rparr>)\<rparr>)"

text \<open>The \<^verbatim>\<open>try\<close> block of \<^verbatim>\<open>start_conversation\<close>.\<close>

definition session_body :: "world \<Rightarrow> manager \<Rightarrow> int option \<Rightarrow> (exn + unit) \<times> manager" where
  "session_body w m conversation =
     (let m1 = emit (Print Connecting) m
      in case evi_client_init (hume_api_key (cfg m1)) (hume_config_id (cfg m1)) of
           Inl e \<Rightarrow> (Inl e, m1)
         | Inr cl \<Rightarrow>
             (case set_up_conversation w (m1\<lparr>evi := Some cl\<rparr>) conversation of
                (Inl e, m2) \<Rightarrow> (Inl e, m2)
              | (Inr False, m2) \<Rightarrow> (Inr (), m2)
              | (Inr True, m2) \<Rightarrow> connection_scope w (register_callbacks m2)))"

text \<open>
  The test of the \<^verbatim>\<open>except Exception\<close> clause:
  \<^verbatim>\<open>"ConnectionClosedError" in str(type(e)) or "no close frame" in error_msg\<close>.
\<close>

definition is_session_limit :: "string \<Rightarrow> string \<Rightarrow> bool" where
  "is_session_limit cls msg =
     (sublist ''ConnectionClosedError'' (str_type cls) \<or> sublist ''no close frame'' msg)"

text \<open>
  The \<^verbatim>\<open>except\<close> clauses of \<^verbatim>\<open>start_conversation\<close>; an exception that is neither a
  \<^verbatim>\<open>KeyboardInterrupt\<close> nor an \<^verbatim>\<open>Exception\<close> is not caught.
\<close>

definition handle_outcome :: "exn + unit \<Rightarrow> manager \<Rightarrow> (exn + unit) \<times> manager" where
  "handle_outcome r m =
     (case r of
        Inr u \<Rightarrow> (Inr (), m)
      | Inl KeyboardInterrupt \<Rightarrow> (Inr (), emit (Print InterruptedByUser) m)
      | Inl CancelledError \<Rightarrow> (Inl CancelledError, m)
      | Inl (Exception cls msg) \<Rightarrow>
          (Inr (),
           if is_session_limit cls msg
           then emit (Print ResumeCommand) (emit (Print ConversationSaved) (emit (Print SessionEnded) m))
           else emit (Log ''Error during conversation'') (emit (Print (ErrorText msg)) m)))"

text \<open>\<^verbatim>\<open>ConversationManager._cleanup\<close>.\<close>

definition cleanup :: "world \<Rightarrow> manager \<Rightarrow> manager" where
  "cleanup w m =
     (let m1 =
        (case current_conversation_id m of
           None \<Rightarrow> m
         | Some cid \<Rightarrow>
             if cid \<noteq> 0
             then (case db_update_conversation_status w m cid ''paused'' of
                     (Inl e, m') \<Rightarrow> emit (Log ''Error updating conversation status'') m'
                   | (Inr u, m') \<Rightarrow> m')
             else m)
      in emit (Print Disconnected) (stop_microphone m1))"

text \<open>
  What follows the \<^verbatim>\<open>try\<close> block of \<^verbatim>\<open>start_conversation\<close>: the \<^verbatim>\<open>except\<close>
  clauses, then \<^verbatim>\<open>finally: await self._cleanup()\<close>.
\<close>

definition except_finally :: "world \<Rightarrow> (exn + unit) \<times> manager \<Rightarrow> (exn + unit) \<times> manager" where
  "except_finally w outcome =
     (case outcome of
        (r, m1) \<Rightarrow>
          (case handle_outcome r m1 of
             (r', m2) \<Rightarrow> (r', cleanup w m2)))"

text \<open>\<^verbatim>\<open>ConversationManager.start_conversation\<close>.\<close>

definition start_conversation :: "world \<Rightarrow> manager \<Rightarrow> int option \<Rightarrow> (exn + unit) \<times> manager" where
  "start_conversation w m conversation = except_finally w (session_body w m conversation)"

subsection \<open>The commands start and resume (cli.py)\<close>

text \<open>
  A command reads the configuration, builds a manager on the database file and runs the
  session; it yields the exception that leaves it (if any), the database file and the
  actions.
\<close>

definition cli_start ::
  "string \<Rightarrow> environ \<Rightarrow> world \<Rightarrow> database \<Rightarrow> (exn + unit) \<times> database \<times> action list"
where
  "cli_start cli_dir environ w d =
     (case get_config cli_dir environ of
        Inl e \<Rightarrow> (Inl e, d, [])
      | Inr c \<Rightarrow>
          (case start_conversation w (new_manager c d) None of
             (r, m) \<Rightarrow> (r, db m, out m)))"

text \<open>
  \<^verbatim>\<open>resume\<close> without an id (\<^verbatim>\<open>if not conversation_id\<close>): the last active
  conversation, or a new one.
\<close>

definition resume_last_active :: "world \<Rightarrow> manager \<Rightarrow> (exn + unit) \<times> manager" where
  "resume_last_active w m =
     (case db_get_last_active_conversation w m of
        (Inl e, m1) \<Rightarrow> (Inl (raise_sqlite e), m1)
      | (Inr None, m1) \<Rightarrow> start_conversation w (emit (Print NoActiveConversation) m1) None
      | (Inr (Some last_conv), m1) \<Rightarrow>
          start_conversation w (emit (Print (Resuming (conv_id last_conv))) m1)
            (Some (conv_id last_conv)))"

definition cli_resume ::
  "string \<Rightarrow> environ \<Rightarrow> world \<Rightarrow> database \<Rightarrow> int option \<Rightarrow> (exn + unit) \<times> database \<times> action list"
where
  "cli_resume cli_dir environ w d conversation =
     (case get_config cli_dir environ of
        Inl e \<Rightarrow> (Inl e, d, [])
      | Inr c \<Rightarrow>
          (case (case conversation of
                   None \<Rightarrow> resume_last_active w (new_manager c d)
                 | Some cid \<Rightarrow>
                     if cid \<noteq> 0 then start_conversation w (new_manager c d) (Some cid)
                     else resume_last_active w (new_manager c d)) of
             (r, m) \<Rightarrow> (r, db m, out m)))"

section \<open>Notions used to state the properties\<close>

text \<open>The row that a successful \<^verbatim>\<open>add_message\<close> inserts.\<close>

definition message_row ::
  "(nat \<Rightarrow> stmt_io) \<Rightarrow> database \<Rightarrow> int \<Rightarrow> string \<Rightarrow> string \<Rightarrow> real option \<Rightarrow> message"
where
  "message_row io d cid r txt dur =
     \<lparr>msg_id = next_rowid (messages_seq d) (map msg_id (messages d)), conversation_id = cid,
      role = r, content = txt, timestamp = now (io 0), audio_duration = dur\<rparr>"

text \<open>The row that a successful \<^verbatim>\<open>create_conversation\<close> inserts.\<close>

definition conversation_row :: "(nat \<Rightarrow> stmt_io) \<Rightarrow> string \<Rightarrow> database \<Rightarrow> string option \<Rightarrow> conversation" where
  "conversation_row io local_now d ttl =
     \<lparr>conv_id = next_rowid (conversations_seq d) (map conv_id (conversations d)),
      title = default_title local_now ttl, created_at = now (io 0), updated_at = now (io 0),
      status = ''active''\<rparr>"


text \<open>The messages of one conversation, in rowid order.\<close>

definition messages_of :: "database \<Rightarrow> int \<Rightarrow> message list" where
  "messages_of d cid = filter (\<lambda>x. conversation_id x = cid) (messages d)"

text \<open>The ids of the stored conversations.\<close>

definition conversation_ids :: "database \<Rightarrow> int set" where
  "conversation_ids d = set (map conv_id (conversations d))"


text \<open>The stored messages whose role is \<^verbatim>\<open>system\<close>.\<close>

definition system_rows :: "database \<Rightarrow> message list" where
  "system_rows d = filter (\<lambda>x. role x = ''system'') (messages d)"

text \<open>The calls on the store among the actions of a run.\<close>

fun is_store_call :: "action \<Rightarrow> bool" where
  "is_store_call (Store c) = True"
| "is_store_call _ = False"

definition store_calls :: "action list \<Rightarrow> action list" where
  "store_calls tr = filter is_store_call tr"

text \<open>
  The three steps of the teardown among the actions of a run: stopping the microphone,
  closing the channel, setting a status to \<^verbatim>\<open>paused\<close>.
\<close>

fun is_teardown_step :: "action \<Rightarrow> bool" where
  "is_teardown_step MicrophoneStopped = True"
| "is_teardown_step ChannelClosed = True"
| "is_teardown_step (Store (UpdateConversationStatus cid st)) = (st = ''paused'')"
| "is_teardown_step _ = False"

definition teardown_steps :: "action list \<Rightarrow> action list" where
  "teardown_steps tr = filter is_teardown_step tr"

text \<open>
  What the coordinator reports about the end of a session: the three lines of the
  session-limit notice, or the error line and its log record.
\<close>

fun is_end_report :: "action \<Rightarrow> bool" where
  "is_end_report (Print SessionEnded) = True"
| "is_end_report (Print ConversationSaved) = True"
| "is_end_report (Print ResumeCommand) = True"
| "is_end_report (Print (ErrorText msg)) = True"
| "is_end_report (Log l) = (l = ''Error during conversation'')"
| "is_end_report _ = False"

definition end_reports :: "action list \<Rightarrow> action list" where
  "end_reports tr = filter is_end_report tr"

text \<open>
  The role and content of the transcripts among the events of the channel, in the order
  of delivery.
\<close>

definition spoken :: "subscribe_event list \<Rightarrow> (string \<times> string) list" where
  "spoken evs =
     map (\<lambda>e. (if ev_type e = ''user_message'' then ''user'' else ''assistant'', ev_content e))
       (filter (\<lambda>e. ev_type e = ''user_message'' \<or> ev_type e = ''assistant_message'') evs)"

subsection \<open>Concrete inputs\<close>

text \<open>The database file after \<^verbatim>\<open>_init_schema\<close> on a new file.\<close>

definition empty_database :: database where
  "empty_database = \<lparr>conversations = [], messages = [], conversations_seq = 0, messages_seq = 0\<rparr>"

text \<open>Statement environments without failures: every statement sees the time \<open>t\<close>.\<close>

definition steady :: "nat \<Rightarrow> nat \<Rightarrow> stmt_io" where
  "steady t i = \<lparr>now = t, failure = None\<rparr>"

definition example_config :: config where
  "example_config =
     \<lparr>hume_api_key = ''key'', hume_config_id = ''cfg'', allow_interrupt = False,
      db_path = ''conversations.db'', ssl_cert_file = None\<rparr>"

text \<open>
  A world without failures in which the k-th store operation runs at second \<open>10 + k\<close>,
  the channel opens, delivers a user transcript, an interruption and an assistant
  transcript, and the user ends the session with Ctrl+C.
\<close>

definition example_events :: "subscribe_event list" where
  "example_events =
     [\<lparr>ev_type = ''user_message'', ev_data = [], ev_content = ''hello''\<rparr>,
      \<lparr>ev_type = ''user_interruption'', ev_data = [], ev_content = []\<rparr>,
      \<lparr>ev_type = ''assistant_message'', ev_data = [], ev_content = ''hi there''\<rparr>]"

definition example_world :: world where
  "example_world =
     \<lparr>store_io = (\<lambda>k. steady (10 + k)), local_time = (\<lambda>k. ''2024-05-01 10:00:00''),
      b64decode = Some, channel_open = None, events = example_events, mic_end = Signal,
      close_error = None\<rparr>"

text \<open>
  A database file with two conversations; the first one holds two messages.
\<close>

definition example_database :: database where
  "example_database =
     \<lparr>conversations =
        [\<lparr>conv_id = 1, title = ''Conversation 2024-05-01 10:00:00'', created_at = 10,
          updated_at = 12, status = ''paused''\<rparr>,
         \<lparr>conv_id = 2, title = ''Second'', created_at = 20, updated_at = 20,
          status = ''active''\<rparr>],
      messages =
        [\<lparr>msg_id = 1, conversation_id = 1, role = ''user'', content = ''hello'',
          timestamp = 11, audio_duration = None\<rparr>,
         \<lparr>msg_id = 2, conversation_id = 1, role = ''assistant'', content = ''hi there'',
          timestamp = 12, audio_duration = None\<rparr>],
      conversations_seq = 2, messages_seq = 2\<rparr>"


text \<open>
  The placeholder of a key in the sample \<^verbatim>\<open>.env\<close> file, as the test of
  \<^verbatim>\<open>_get_required_env\<close> builds it, and what it means for a key to be unset, empty or
  left at its placeholder.
\<close>

definition placeholder :: "string \<Rightarrow> string" where
  "placeholder key = ''your_'' @ str_lower key @ ''_here''"

definition unconfigured :: "environ \<Rightarrow> string \<Rightarrow> bool" where
  "unconfigured environ key =
     (environ key = None \<or> environ key = Some [] \<or> environ key = Some (placeholder key))"

text \<open>An environment in which the API key was left at its placeholder.\<close>

definition example_environ :: environ where
  "example_environ =
     map_of [(''HUME_API_KEY'', ''your_hume_api_key_here''), (''HUME_CONFIG_ID'', ''abc-123'')]"

subsection \<open>Notions used in the proofs about the coordinator\<close>

text \<open>
  The actions that can occur between the opening and the closing of the channel: the
  console lines of the session, the start of the microphone, and what the handling of
  the channel events adds (a call of \<^verbatim>\<open>add_message\<close> only with a role other than
  \<^verbatim>\<open>system\<close>).
\<close>

fun is_event_action :: "action \<Rightarrow> bool" where
  "is_event_action (Print (EVI s)) = True"
| "is_event_action (Print (You s)) = True"
| "is_event_action (Print (SystemText s)) = True"
| "is_event_action (Print Connected) = True"
| "is_event_action (Print StartingMicrophone) = True"
| "is_event_action (Print PressCtrlC) = True"
| "is_event_action (Print (InterruptionSetting b)) = True"
| "is_event_action (Print InterruptionEnabled) = True"
| "is_event_action (Print WalkieTalkieMode) = True"
| "is_event_action (Print ShuttingDown) = True"
| "is_event_action (Print Stopping) = True"
| "is_event_action (MicrophoneStarted b) = True"
| "is_event_action (Log l) =
     (l = ''Failed to save message'' \<or> l = ''Error handling message'' \<or>
      l = ''Error starting microphone'')"
| "is_event_action (Store (AddMessage cid r body)) = (r \<noteq> ''system'')"
| "is_event_action _ = False"

text \<open>The actions of setting up the conversation, before the channel is opened.\<close>

fun is_setup_action :: "action \<Rightarrow> bool" where
  "is_setup_action (Print Connecting) = True"
| "is_setup_action (Print (NotFound cid)) = True"
| "is_setup_action (Print (Resumed cid)) = True"
| "is_setup_action (Print (StartedNew cid)) = True"
| "is_setup_action (Store (GetConversation cid)) = True"
| "is_setup_action (Store CreateConversation) = True"
| "is_setup_action (Store (UpdateConversationStatus cid st)) = (st = ''active'')"
| "is_setup_action _ = False"

text \<open>
  What the session can change in the manager between the opening and the closing of the
  channel: it adds such actions and message rows whose role is not \<^verbatim>\<open>system\<close>, and
  leaves the configuration, the client, the conversation id, and the ids and statuses of
  the conversations alone.
\<close>

definition event_step :: "manager \<Rightarrow> manager \<Rightarrow> bool" where
  "event_step m m' =
     (cfg m' = cfg m \<and> evi m' = evi m \<and>
      current_conversation_id m' = current_conversation_id m \<and>
      (\<exists>acts. out m' = out m @ acts \<and> list_all is_event_action acts) \<and>
      system_rows (db m') = system_rows (db m) \<and>
      map conv_id (conversations (db m')) = map conv_id (conversations (db m)) \<and>
      map status (conversations (db m')) = map status (conversations (db m)))"

text \<open>The actions that one call of \<^verbatim>\<open>start_conversation\<close> adds.\<close>

definition run_actions :: "world \<Rightarrow> manager \<Rightarrow> int option \<Rightarrow> action list" where
  "run_actions w m conversation =
     drop (length (out m)) (out (snd (start_conversation w m conversation)))"

text \<open>
  The world of a session that the remote service ends without a close frame: as
  \<open>example_world\<close>, but the audio loop raises the exception of the websocket library.
\<close>

definition timeout_world :: world where
  "timeout_world =
     example_world\<lparr>mic_end :=
       Raises (Exception ''websockets.exceptions.ConnectionClosedError''
                 ''no close frame received or sent'')\<rparr>"

text \<open>The client that \<^verbatim>\<open>EVIClient(...)\<close> builds from \<open>example_config\<close>.\<close>

definition example_client :: evi_client where
  "example_client =
     \<lparr>api_key = ''key'', config_id = ''cfg'', message_callbacks = 0, audio_stream = False\<rparr>"

text \<open>
  As \<open>example_world\<close>, but the service refuses the connection: opening the channel
  raises.
\<close>

definition refused_world :: world where
  "refused_world =
     example_world\<lparr>channel_open := Some (Exception ''ConnectionRefusedError'' ''connection refused'')\<rparr>"

text \<open>An environment from which \<^verbatim>\<open>Config()\<close> reads \<open>example_config\<close>.\<close>

definition configured_environ :: environ where
  "configured_environ =
     map_of [(''HUME_API_KEY'', ''key''), (''HUME_CONFIG_ID'', ''cfg''),
             (''DB_PATH'', ''conversations.db'')]"

section \<open>The store operations, unfolded\<close>

text \<open>
  Each operation of the store as a case distinction on the failures of its statements:
  a failing statement or commit leaves the database file as it was.
\<close>

text \<open>
  The statements of an operation are numbered 0, 1, 2; the numeral 1 is kept as it is
  written.
\<close>

declare One_nat_def [simp del]

lemmas connection_defs = get_connection_def connect_def commit_def rollback_def close_def

lemma add_message_unfold:
  "add_message io d cid r txt dur =
     (case failure (io 0) of
        Some e \<Rightarrow> (Inl (OperationalError e), d)
      | None \<Rightarrow>
          if cid \<notin> conversation_ids d
          then (Inl (IntegrityError ''FOREIGN KEY constraint failed''), d)
          else
            (case failure (io 1) of
               Some e \<Rightarrow> (Inl (OperationalError e), d)
             | None \<Rightarrow>
                 (case failure (io 2) of
                    Some e \<Rightarrow> (Inl (OperationalError e), d)
                  | None \<Rightarrow>
                      (Inr (msg_id (message_row io d cid r txt dur)),
                       d\<lparr>messages := messages d @ [message_row io d cid r txt dur],
                          messages_seq := msg_id (message_row io d cid r txt dur),
                          conversations :=
                            map (\<lambda>c. if conv_id c = cid then c\<lparr>updated_at := now (io 1)\<rparr> else c)
                                (conversations d)\<rparr>))))"
  by (simp add: add_message_def connection_defs insert_message_def conversation_ids_def
      touch_conversation_def message_row_def Let_def split: option.splits)

lemma create_conversation_unfold:
  "create_conversation io local_now d ttl =
     (case failure (io 0) of
        Some e \<Rightarrow> (Inl (OperationalError e), d)
      | None \<Rightarrow>
          (case failure (io 1) of
             Some e \<Rightarrow> (Inl (OperationalError e), d)
           | None \<Rightarrow>
               (Inr (conv_id (conversation_row io local_now d ttl)),
                d\<lparr>conversations := conversations d @ [conversation_row io local_now d ttl],
                   conversations_seq := conv_id (conversation_row io local_now d ttl)\<rparr>)))"
  by (simp add: create_conversation_def connection_defs insert_conversation_def
      conversation_row_def Let_def split: option.splits)

lemma update_conversation_status_unfold:
  "update_conversation_status io d cid st =
     (case failure (io 0) of
        Some e \<Rightarrow> (Inl (OperationalError e), d)
      | None \<Rightarrow>
          (case failure (io 1) of
             Some e \<Rightarrow> (Inl (OperationalError e), d)
           | None \<Rightarrow>
               (Inr (),
                d\<lparr>conversations :=
                     map (\<lambda>r. if conv_id r = cid then r\<lparr>status := st, updated_at := now (io 0)\<rparr> else r)
                         (conversations d)\<rparr>)))"
  by (simp add: update_conversation_status_def connection_defs update_status_stmt_def
      Let_def split: option.splits)

lemma get_conversation_unfold:
  "get_conversation io d cid =
     (case failure (io 0) of
        Some e \<Rightarrow> (Inl (OperationalError e), d)
      | None \<Rightarrow> (Inr (find (\<lambda>r. conv_id r = cid) (conversations d)), d))"
  by (simp add: get_conversation_def connection_defs select_conversation_def split: option.splits)

lemma get_last_active_conversation_db: "snd (get_last_active_conversation io d) = d"
  by (simp add: get_last_active_conversation_def connection_defs select_last_active_def
      split: option.splits list.splits)


lemma list_conversations_unfold:
  "list_conversations io d n =
     (case failure (io 0) of
        Some e \<Rightarrow> (Inl (OperationalError e), d)
      | None \<Rightarrow>
          (Inr (limit_rows n (order_by_updated_desc (\<lambda>r. updated_at (conv r))
                  (map (group_row (messages d)) (conversations d)))), d))"
  by (simp add: list_conversations_def connection_defs select_listing_def split: option.splits)

lemma fold_max_ge_seed: "(s::int) \<le> fold max ids s"
proof (induction ids arbitrary: s)
  case Nil
  show ?case by simp
next
  case (Cons a ids)
  have "s \<le> max a s" by simp
  also have "\<dots> \<le> fold max ids (max a s)" by (rule Cons.IH)
  finally show ?case by simp
qed

lemma fold_max_upper: "x \<in> set ids \<Longrightarrow> x \<le> fold max ids (s::int)"
proof (induction ids arbitrary: s)
  case Nil
  then show ?case by simp
next
  case (Cons a ids)
  show ?case
  proof (cases "x = a")
    case True
    have "x \<le> max a s" using True by simp
    also have "\<dots> \<le> fold max ids (max a s)" by (rule fold_max_ge_seed)
    finally show ?thesis by simp
  next
    case False
    with Cons.prems have "x \<in> set ids" by simp
    then show ?thesis using Cons.IH by simp
  qed
qed

lemma next_rowid_fresh: "next_rowid s ids \<notin> set ids"
  using fold_max_upper[of "next_rowid s ids" ids s] by (auto simp: next_rowid_def)

lemma next_rowid_positive: "0 \<le> s \<Longrightarrow> 0 < next_rowid s ids"
  using fold_max_ge_seed[of s ids] by (simp add: next_rowid_def)

section \<open>Appending a message\<close>



lemma add_message_success:
  assumes "failure (io 0) = None" "failure (io 1) = None" "failure (io 2) = None"
    "cid \<in> conversation_ids d"
  shows "add_message io d cid r txt dur =
     (Inr (msg_id (message_row io d cid r txt dur)),
      d\<lparr>messages := messages d @ [message_row io d cid r txt dur],
         messages_seq := msg_id (message_row io d cid r txt dur),
         conversations :=
           map (\<lambda>c. if conv_id c = cid then c\<lparr>updated_at := now (io 1)\<rparr> else c)
               (conversations d)\<rparr>)"
  using assms by (simp add: add_message_unfold)

lemma add_message_failure:
  assumes "\<not> (failure (io 0) = None \<and> failure (io 1) = None \<and> failure (io 2) = None \<and>
         cid \<in> conversation_ids d)"
  shows "\<exists>e. add_message io d cid r txt dur = (Inl e, d)"
proof (cases "failure (io 0)")
  case (Some e)
  then show ?thesis by (simp add: add_message_unfold)
next
  case None
  note f0 = this
  show ?thesis
  proof (cases "cid \<in> conversation_ids d")
    case False
    then show ?thesis using f0 by (simp add: add_message_unfold)
  next
    case True
    note ex = this
    show ?thesis
    proof (cases "failure (io 1)")
      case (Some e)
      then show ?thesis using f0 ex by (simp add: add_message_unfold)
    next
      case None
      with assms f0 ex obtain e where "failure (io 2) = Some e" by auto
      then show ?thesis using f0 ex None by (simp add: add_message_unfold)
    qed
  qed
qed


lemma map_conv_id_touch:
  "map conv_id (map (\<lambda>c. if conv_id c = cid then c\<lparr>updated_at := t\<rparr> else c) cs) = map conv_id cs"
  by (induction cs) simp_all

lemma map_conv_id_set_status:
  "map conv_id (map (\<lambda>c. if conv_id c = cid then c\<lparr>status := st, updated_at := t\<rparr> else c) cs)
     = map conv_id cs"
  by (induction cs) simp_all


lemma message_row_fields:
  "conversation_id (message_row io d cid r txt dur) = cid"
  "timestamp (message_row io d cid r txt dur) = now (io 0)"
  "role (message_row io d cid r txt dur) = r"
  "content (message_row io d cid r txt dur) = txt"
  "audio_duration (message_row io d cid r txt dur) = dur"
  by (simp_all add: message_row_def)




section \<open>Creating a conversation and reading it back\<close>

lemma find_appended_fresh:
  "\<forall>x \<in> set xs. \<not> P x \<Longrightarrow> P y \<Longrightarrow> find P (xs @ [y]) = Some y"
  by (induction xs) simp_all

lemma conversation_row_fields:
  "conv_id (conversation_row io local_now d ttl) =
     next_rowid (conversations_seq d) (map conv_id (conversations d))"
  "title (conversation_row io local_now d ttl) = default_title local_now ttl"
  "status (conversation_row io local_now d ttl) = ''active''"
  "created_at (conversation_row io local_now d ttl) = now (io 0)"
  "updated_at (conversation_row io local_now d ttl) = now (io 0)"
  by (simp_all add: conversation_row_def)

lemma default_title_not_empty: "default_title local_now ttl \<noteq> []"
  by (cases ttl) (simp_all add: default_title_def)

lemma create_conversation_success:
  assumes "failure (io 0) = None" "failure (io 1) = None"
  shows "create_conversation io local_now d ttl =
     (Inr (conv_id (conversation_row io local_now d ttl)),
      d\<lparr>conversations := conversations d @ [conversation_row io local_now d ttl],
         conversations_seq := conv_id (conversation_row io local_now d ttl)\<rparr>)"
  using assms by (simp add: create_conversation_unfold)

lemma create_conversation_failure:
  assumes "\<not> (failure (io 0) = None \<and> failure (io 1) = None)"
  shows "\<exists>e. create_conversation io local_now d ttl = (Inl e, d)"
proof (cases "failure (io 0)")
  case (Some e)
  then show ?thesis by (simp add: create_conversation_unfold)
next
  case None
  with assms obtain e where "failure (io 1) = Some e" by auto
  with None show ?thesis by (simp add: create_conversation_unfold)
qed

lemma find_created:
  "find (\<lambda>r. conv_id r = conv_id (conversation_row io local_now d ttl))
     (conversations d @ [conversation_row io local_now d ttl])
   = Some (conversation_row io local_now d ttl)"
proof (rule find_appended_fresh)
  show "\<forall>x \<in> set (conversations d). conv_id x \<noteq> conv_id (conversation_row io local_now d ttl)"
  proof
    fix x
    assume "x \<in> set (conversations d)"
    then have "conv_id x \<in> set (map conv_id (conversations d))" by simp
    then show "conv_id x \<noteq> conv_id (conversation_row io local_now d ttl)"
      using next_rowid_fresh[of "conversations_seq d" "map conv_id (conversations d)"]
      by (auto simp only: conversation_row_fields)
  qed
qed simp

text \<open>
  Claim C8. For every optional title, a \<^verbatim>\<open>create_conversation\<close> that returns an id,
  followed by \<^verbatim>\<open>get_conversation\<close> on that id, yields the new row: its status is
  \<^verbatim>\<open>active\<close> and its title is not empty (the given title, or \<^verbatim>\<open>Conversation\<close> followed
  by the creation time when none or an empty one was given). The read can fail only by
  an error of its own statement, and the creation returns an id exactly when neither its
  statement nor its commit fails.
\<close>

theorem create_then_get:
  "(case create_conversation io local_now d ttl of
      (Inl e, d') \<Rightarrow> d' = d
    | (Inr cid, d') \<Rightarrow>
        (case get_conversation io' d' cid of
           (Inl e, d'') \<Rightarrow> failure (io' 0) \<noteq> None
         | (Inr found, d'') \<Rightarrow>
             d'' = d' \<and>
             (\<exists>c. found = Some c \<and> conv_id c = cid \<and> status c = ''active'' \<and> title c \<noteq> [] \<and>
                  title c = default_title local_now ttl \<and>
                  (ttl = None \<longrightarrow> title c = ''Conversation '' @ local_now))))
   \<and> ((\<exists>cid. fst (create_conversation io local_now d ttl) = Inr cid) =
        (failure (io 0) = None \<and> failure (io 1) = None))"
proof (cases "failure (io 0) = None \<and> failure (io 1) = None")
  case False
  from create_conversation_failure[OF this] obtain e
    where "create_conversation io local_now d ttl = (Inl e, d)" by blast
  then show ?thesis using False by simp
next
  case True
  let ?row = "conversation_row io local_now d ttl"
  let ?d' = "d\<lparr>conversations := conversations d @ [?row], conversations_seq := conv_id ?row\<rparr>"
  have run: "create_conversation io local_now d ttl = (Inr (conv_id ?row), ?d')"
    using True by (simp add: create_conversation_success)
  have row: "status ?row = ''active'' \<and> title ?row \<noteq> [] \<and>
      title ?row = default_title local_now ttl \<and>
      (ttl = None \<longrightarrow> title ?row = ''Conversation '' @ local_now)"
    by (simp add: conversation_row_fields default_title_not_empty) (simp add: default_title_def)
  have read: "(case get_conversation io' ?d' (conv_id ?row) of
           (Inl e, d'') \<Rightarrow> failure (io' 0) \<noteq> None
         | (Inr found, d'') \<Rightarrow>
             d'' = ?d' \<and>
             (\<exists>c. found = Some c \<and> conv_id c = conv_id ?row \<and> status c = ''active'' \<and>
                  title c \<noteq> [] \<and> title c = default_title local_now ttl \<and>
                  (ttl = None \<longrightarrow> title c = ''Conversation '' @ local_now)))"
  proof (cases "failure (io' 0)")
    case (Some e)
    then show ?thesis by (simp add: get_conversation_unfold)
  next
    case None
    then have "get_conversation io' ?d' (conv_id ?row) = (Inr (Some ?row), ?d')"
      by (simp add: get_conversation_unfold find_created)
    then show ?thesis using row by (simp add: default_title_not_empty)
  qed
  have ok: "\<exists>cid. (Inr (conv_id ?row) :: sqlite_error + int) = Inr cid" by simp
  show ?thesis
    unfolding run prod.case sum.case fst_conv
    using read ok True by blast
qed


theorem create_then_get_witness:
  "fst (create_conversation (steady 30) ''2024-05-01 10:00:30'' example_database None) = Inr 3 \<and>
   (\<exists>c. fst (get_conversation (steady 31)
             (snd (create_conversation (steady 30) ''2024-05-01 10:00:30'' example_database None)) 3)
          = Inr (Some c) \<and>
        status c = ''active'' \<and> title c = ''Conversation 2024-05-01 10:00:30'')"
proof -
  let ?run = "create_conversation (steady 30) ''2024-05-01 10:00:30'' example_database None"
  have first: "fst ?run = Inr 3"
    by (simp add: create_conversation_success steady_def conversation_row_def next_rowid_def
        example_database_def)
  then obtain d' where run: "?run = (Inr 3, d')"
    by (cases ?run) simp
  obtain res d'' where read: "get_conversation (steady 31) d' 3 = (res, d'')"
    by (cases "get_conversation (steady 31) d' 3")
  have quiet: "failure (steady 31 0) = None" by (simp add: steady_def)
  have "case res of
          Inl e \<Rightarrow> False
        | Inr found \<Rightarrow>
            \<exists>c. found = Some c \<and> status c = ''active'' \<and>
                title c = ''Conversation '' @ ''2024-05-01 10:00:30''"
    using create_then_get[where io = "steady 30" and local_now = "''2024-05-01 10:00:30''"
        and d = example_database and ttl = None and io' = "steady 31"] quiet
    unfolding run prod.case sum.case read
    by (cases res) auto
  then obtain c where "res = Inr (Some c)" "status c = ''active''"
      "title c = ''Conversation 2024-05-01 10:00:30''"
    by (cases res) auto
  then show ?thesis using first by (simp add: run read)
qed

section \<open>Listing the conversations\<close>

lemma count_ids_Some: "count_ids (map Some xs) = length xs"
  by (induction xs) simp_all

lemma count_ids_left_join: "count_ids (left_join c ms) = length (filter (\<lambda>x. conversation_id x = conv_id c) ms)"
proof -
  have same: "filter (\<lambda>m. conv_id c = conversation_id m) ms = filter (\<lambda>x. conversation_id x = conv_id c) ms"
    by (rule filter_cong) auto
  show ?thesis
  proof (cases "filter (\<lambda>x. conversation_id x = conv_id c) ms")
    case Nil
    then show ?thesis by (simp add: left_join_def same)
  next
    case (Cons m rest)
    then have "left_join c ms = map Some (m # rest)" by (simp add: left_join_def same)
    then show ?thesis using Cons by (simp only: count_ids_Some)
  qed
qed

lemma group_row_fields:
  "conv (group_row ms c) = c"
  "message_count (group_row ms c) = length (filter (\<lambda>x. conversation_id x = conv_id c) ms)"
  by (simp_all add: group_row_def count_ids_left_join)

lemma order_by_updated_desc_sorted:
  "sorted_wrt (\<lambda>a b. key b \<le> key a) (order_by_updated_desc key rows)"
proof -
  have "sorted (map (\<lambda>r. - int (key r)) (sort_key (\<lambda>r. - int (key r)) rows))"
    by (rule sorted_sort_key)
  then have "sorted_wrt (\<lambda>a b. - int (key a) \<le> - int (key b)) (sort_key (\<lambda>r. - int (key r)) rows)"
    by (simp only: sorted_map)
  then show ?thesis
    unfolding order_by_updated_desc_def
    by (rule sorted_wrt_mono_rel[rotated]) simp
qed

lemma order_by_updated_desc_mset: "mset (order_by_updated_desc key rows) = mset rows"
  by (simp add: order_by_updated_desc_def)

lemma limit_rows_sorted: "sorted_wrt P rows \<Longrightarrow> sorted_wrt P (limit_rows n rows)"
  by (simp add: limit_rows_def)

lemma limit_rows_subset: "set (limit_rows n rows) \<subseteq> set rows"
  by (simp add: limit_rows_def set_take_subset)

lemma limit_rows_length:
  "length (limit_rows n rows) = (if n < 0 then length rows else min (length rows) (nat n))"
  by (simp add: limit_rows_def)


text \<open>
  Claim C7. For every state of the store, \<^verbatim>\<open>list_conversations\<close> (unless its statement
  fails) returns the first \<open>n\<close> entries of a listing of all conversations that is ordered
  by \<open>updated_at\<close>, newest first, and the \<open>message_count\<close> of every entry is the number
  of message rows with the id of that conversation. The database file is unchanged.
\<close>

theorem list_conversations_ordered_counted:
  "(case list_conversations io d n of
      (Inl e, d') \<Rightarrow> failure (io 0) \<noteq> None \<and> d' = d
    | (Inr rows, d') \<Rightarrow>
        d' = d \<and> failure (io 0) = None \<and>
        sorted_wrt (\<lambda>a b. updated_at (conv b) \<le> updated_at (conv a)) rows \<and>
        (\<forall>r \<in> set rows. message_count r = length (messages_of d (conv_id (conv r)))) \<and>
        (\<exists>full. rows = limit_rows n full \<and> mset (map conv full) = mset (conversations d) \<and>
           sorted_wrt (\<lambda>a b. updated_at (conv b) \<le> updated_at (conv a)) full) \<and>
        length rows = (if n < 0 then length (conversations d)
                       else min (length (conversations d)) (nat n)))"
proof (cases "failure (io 0)")
  case (Some e)
  then show ?thesis by (simp add: list_conversations_unfold)
next
  case None
  let ?groups = "map (group_row (messages d)) (conversations d)"
  let ?full = "order_by_updated_desc (\<lambda>r. updated_at (conv r)) ?groups"
  let ?rows = "limit_rows n ?full"
  have run: "list_conversations io d n = (Inr ?rows, d)"
    using None by (simp add: list_conversations_unfold)
  have full_sorted: "sorted_wrt (\<lambda>a b. updated_at (conv b) \<le> updated_at (conv a)) ?full"
    by (rule order_by_updated_desc_sorted)
  then have rows_sorted: "sorted_wrt (\<lambda>a b. updated_at (conv b) \<le> updated_at (conv a)) ?rows"
    by (rule limit_rows_sorted)
  have full_set: "set ?full = set ?groups"
    using order_by_updated_desc_mset[of "\<lambda>r. updated_at (conv r)" ?groups]
    by (rule mset_eq_setD)
  have counts: "\<forall>r \<in> set ?rows. message_count r = length (messages_of d (conv_id (conv r)))"
  proof (rule ballI)
    fix r
    assume "r \<in> set ?rows"
    then have "r \<in> set ?full" by (rule subsetD[OF limit_rows_subset])
    then have "r \<in> set ?groups" by (simp only: full_set)
    then obtain c where r: "r = group_row (messages d) c" by auto
    show "message_count r = length (messages_of d (conv_id (conv r)))"
      unfolding r by (simp only: group_row_fields messages_of_def)
  qed
  have convs: "map conv ?groups = conversations d"
    by (simp add: group_row_fields comp_def)
  have full_mset: "mset (map conv ?full) = mset (conversations d)"
  proof -
    have "mset (map conv ?full) = image_mset conv (mset ?full)" by (rule mset_map)
    also have "\<dots> = image_mset conv (mset ?groups)" by (simp only: order_by_updated_desc_mset)
    also have "\<dots> = mset (map conv ?groups)" by (rule mset_map[symmetric])
    finally show ?thesis by (simp only: convs)
  qed
  have len: "length ?rows = (if n < 0 then length (conversations d)
                       else min (length (conversations d)) (nat n))"
  proof -
    have "length ?full = length ?groups"
      using order_by_updated_desc_mset[of "\<lambda>r. updated_at (conv r)" ?groups]
      by (rule mset_eq_length)
    then show ?thesis by (simp add: limit_rows_length)
  qed
  have ex: "\<exists>full. ?rows = limit_rows n full \<and> mset (map conv full) = mset (conversations d) \<and>
           sorted_wrt (\<lambda>a b. updated_at (conv b) \<le> updated_at (conv a)) full"
    using full_mset full_sorted by blast
  show ?thesis
    unfolding run prod.case sum.case
    using None rows_sorted counts ex len by blast
qed

theorem list_conversations_ordered_counted_witness:
  "fst (list_conversations (steady 40) example_database 50) =
     Inr [\<lparr>conv = \<lparr>conv_id = 2, title = ''Second'', created_at = 20, updated_at = 20,
                   status = ''active''\<rparr>,
           message_count = 0, last_message_time = None\<rparr>,
          \<lparr>conv = \<lparr>conv_id = 1, title = ''Conversation 2024-05-01 10:00:00'', created_at = 10,
                   updated_at = 12, status = ''paused''\<rparr>,
           message_count = 2, last_message_time = Some 12\<rparr>] \<and>
   length (messages_of example_database 1) = 2 \<and> length (messages_of example_database 2) = 0"
proof -
  let ?rows = "[\<lparr>conv = \<lparr>conv_id = 2, title = ''Second'', created_at = 20, updated_at = 20,
                   status = ''active''\<rparr>,
           message_count = 0, last_message_time = None\<rparr>,
          \<lparr>conv = \<lparr>conv_id = 1, title = ''Conversation 2024-05-01 10:00:00'', created_at = 10,
                   updated_at = 12, status = ''paused''\<rparr>,
           message_count = 2, last_message_time = Some 12\<rparr>]"
  have run: "list_conversations (steady 40) example_database 50 = (Inr ?rows, example_database)"
    by code_simp
  have "\<forall>r \<in> set ?rows. message_count r = length (messages_of example_database (conv_id (conv r)))"
    using list_conversations_ordered_counted[where io = "steady 40" and d = example_database
        and n = 50]
    unfolding run prod.case sum.case
    by blast
  then have "length (messages_of example_database 1) = 2 \<and>
      length (messages_of example_database 2) = 0"
    by simp
  then show ?thesis by (simp add: run)
qed

section \<open>Reading the messages back\<close>

lemma add_message_success_rows:
  assumes "failure (io 0) = None" "failure (io 1) = None" "failure (io 2) = None"
    "cid \<in> conversation_ids d"
  shows "messages (snd (add_message io d cid r body dur)) = messages d @ [message_row io d cid r body dur]"
    and "conversations (snd (add_message io d cid r body dur)) =
      map (\<lambda>c. if conv_id c = cid then c\<lparr>updated_at := now (io 1)\<rparr> else c) (conversations d)"
    and "conversation_ids (snd (add_message io d cid r body dur)) = conversation_ids d"
  using assms
  by (simp_all add: add_message_success conversation_ids_def map_conv_id_touch del: set_map map_map)








section \<open>Configuration\<close>

lemma placeholder_values:
  "placeholder ''HUME_API_KEY'' = ''your_hume_api_key_here''"
  "placeholder ''HUME_CONFIG_ID'' = ''your_hume_config_id_here''"
  by (simp_all add: placeholder_def str_lower_def lower_char_def)

lemma get_required_env_unconfigured:
  "unconfigured environ key \<Longrightarrow>
   get_required_env environ key = Inl (Exception ''ValueError'' (not_configured_message key))"
  by (cases "environ key") (auto simp: unconfigured_def placeholder_def get_required_env_def)

lemma get_required_env_configured:
  "\<not> unconfigured environ key \<Longrightarrow> \<exists>v. get_required_env environ key = Inr v \<and> environ key = Some v \<and> v \<noteq> []"
  by (cases "environ key") (auto simp: unconfigured_def placeholder_def get_required_env_def)

lemma message_names_key: "prefix key (not_configured_message key)"
  by (simp add: not_configured_message_def)

lemma message_has_hints:
  "sublist api_key_hint (not_configured_message key)"
  "sublist config_id_hint (not_configured_message key)"
proof -
  have "not_configured_message key =
      (key @ '' not found or not configured. Set it in .env file or environment variable.''
         @ [CHR 0x0A]) @ api_key_hint @ ([CHR 0x0A] @ config_id_hint)"
    by (simp add: not_configured_message_def)
  then show "sublist api_key_hint (not_configured_message key)"
    unfolding sublist_def by blast
  have "not_configured_message key =
      (key @ '' not found or not configured. Set it in .env file or environment variable.''
         @ [CHR 0x0A] @ api_key_hint @ [CHR 0x0A]) @ config_id_hint @ []"
    by (simp add: not_configured_message_def)
  then show "sublist config_id_hint (not_configured_message key)"
    unfolding sublist_def by blast
qed

text \<open>
  Claim C9. When \<^verbatim>\<open>HUME_API_KEY\<close> is unset, empty or left at its placeholder, or it is
  set and \<^verbatim>\<open>HUME_CONFIG_ID\<close> is not, building the configuration raises a
  \<^verbatim>\<open>ValueError\<close> whose message starts with the name of that variable and holds the
  lines that say where to get the API key and the configuration id; the commands
  \<^verbatim>\<open>start\<close> and \<^verbatim>\<open>resume\<close> end with that error before anything else is done: no
  action is taken and the database file is as before.
\<close>

theorem unconfigured_key_fails_before_session:
  assumes "unconfigured environ ''HUME_API_KEY'' \<and> key = ''HUME_API_KEY'' \<or>
      \<not> unconfigured environ ''HUME_API_KEY'' \<and> unconfigured environ ''HUME_CONFIG_ID'' \<and>
        key = ''HUME_CONFIG_ID''"
  shows "config_init cli_dir environ = Inl (Exception ''ValueError'' (not_configured_message key)) \<and>
     prefix key (not_configured_message key) \<and>
     sublist api_key_hint (not_configured_message key) \<and>
     sublist config_id_hint (not_configured_message key) \<and>
     cli_start cli_dir environ w d = (Inl (Exception ''ValueError'' (not_configured_message key)), d, []) \<and>
     cli_resume cli_dir environ w d conversation =
       (Inl (Exception ''ValueError'' (not_configured_message key)), d, [])"
proof -
  have init: "config_init cli_dir environ = Inl (Exception ''ValueError'' (not_configured_message key))"
    using assms
  proof
    assume "unconfigured environ ''HUME_API_KEY'' \<and> key = ''HUME_API_KEY''"
    then show ?thesis
      by (simp add: config_init_def get_required_env_unconfigured)
  next
    assume h: "\<not> unconfigured environ ''HUME_API_KEY'' \<and> unconfigured environ ''HUME_CONFIG_ID'' \<and>
        key = ''HUME_CONFIG_ID''"
    then obtain v where "get_required_env environ ''HUME_API_KEY'' = Inr v"
      using get_required_env_configured[of environ "''HUME_API_KEY''"] by blast
    then show ?thesis using h
      by (simp add: config_init_def get_required_env_unconfigured)
  qed
  then have "cli_start cli_dir environ w d =
        (Inl (Exception ''ValueError'' (not_configured_message key)), d, [])"
    and "cli_resume cli_dir environ w d conversation =
        (Inl (Exception ''ValueError'' (not_configured_message key)), d, [])"
    by (simp_all add: cli_start_def cli_resume_def get_config_def)
  with init message_names_key[of key] message_has_hints[of key] show ?thesis by blast
qed

theorem unconfigured_key_fails_before_session_witness:
  "config_init ''/app/cli'' example_environ =
     Inl (Exception ''ValueError'' (not_configured_message ''HUME_API_KEY'')) \<and>
   cli_start ''/app/cli'' example_environ example_world empty_database =
     (Inl (Exception ''ValueError'' (not_configured_message ''HUME_API_KEY'')), empty_database, []) \<and>
   prefix ''HUME_API_KEY'' (not_configured_message ''HUME_API_KEY'')"
proof -
  have "unconfigured example_environ ''HUME_API_KEY''"
    by (simp add: unconfigured_def example_environ_def placeholder_values)
  then have "unconfigured example_environ ''HUME_API_KEY'' \<and> ''HUME_API_KEY'' = ''HUME_API_KEY'' \<or>
      \<not> unconfigured example_environ ''HUME_API_KEY'' \<and>
        unconfigured example_environ ''HUME_CONFIG_ID'' \<and> ''HUME_API_KEY'' = ''HUME_CONFIG_ID''"
    by blast
  from unconfigured_key_fails_before_session[OF this, of "''/app/cli''" example_world empty_database None]
  show ?thesis by blast
qed

section \<open>The coordinator: emitting actions and calling the store\<close>

lemma emit_fields:
  "out (emit a m) = out m @ [a]"
  "db (emit a m) = db m"
  "cfg (emit a m) = cfg m"
  "evi (emit a m) = evi m"
  "playback (emit a m) = playback m"
  "current_conversation_id (emit a m) = current_conversation_id m"
  "running (emit a m) = running m"
  "store_ops (emit a m) = store_ops m"
  by (simp_all add: emit_def)

lemma after_store_fields:
  "out (after_store c d m) = out m @ [Store c]"
  "db (after_store c d m) = d"
  "cfg (after_store c d m) = cfg m"
  "evi (after_store c d m) = evi m"
  "playback (after_store c d m) = playback m"
  "current_conversation_id (after_store c d m) = current_conversation_id m"
  "running (after_store c d m) = running m"
  "store_ops (after_store c d m) = Suc (store_ops m)"
  by (simp_all add: after_store_def)

lemma db_add_message_pair:
  "db_add_message w m cid r body =
     (fst (add_message (store_io w (store_ops m)) (db m) cid r body None),
      after_store (AddMessage cid r body)
        (snd (add_message (store_io w (store_ops m)) (db m) cid r body None)) m)"
  by (simp add: db_add_message_def split: prod.splits)

lemma db_update_conversation_status_pair:
  "db_update_conversation_status w m cid st =
     (fst (update_conversation_status (store_io w (store_ops m)) (db m) cid st),
      after_store (UpdateConversationStatus cid st)
        (snd (update_conversation_status (store_io w (store_ops m)) (db m) cid st)) m)"
  by (simp add: db_update_conversation_status_def split: prod.splits)

lemma db_create_conversation_pair:
  "db_create_conversation w m =
     (fst (create_conversation (store_io w (store_ops m)) (local_time w (store_ops m)) (db m) None),
      after_store CreateConversation
        (snd (create_conversation (store_io w (store_ops m)) (local_time w (store_ops m)) (db m) None)) m)"
  by (simp add: db_create_conversation_def split: prod.splits)

lemma db_get_conversation_pair:
  "db_get_conversation w m cid =
     (fst (get_conversation (store_io w (store_ops m)) (db m) cid),
      after_store (GetConversation cid) (db m) m)"
  by (simp add: db_get_conversation_def get_conversation_unfold split: prod.splits option.splits)

lemma db_get_last_active_conversation_pair:
  "db_get_last_active_conversation w m =
     (fst (get_last_active_conversation (store_io w (store_ops m)) (db m)),
      after_store GetLastActiveConversation (db m) m)"
proof (cases "get_last_active_conversation (store_io w (store_ops m)) (db m)")
  case (Pair r d)
  with get_last_active_conversation_db[of "store_io w (store_ops m)" "db m"]
  have "d = db m" by simp
  then show ?thesis using Pair by (simp add: db_get_last_active_conversation_def)
qed


section \<open>Handling the events of the channel\<close>

lemma map_status_touch:
  "map status (map (\<lambda>c. if conv_id c = cid then c\<lparr>updated_at := t\<rparr> else c) cs) = map status cs"
  by (induction cs) simp_all

lemma add_message_keeps:
  assumes "r \<noteq> ''system''"
  shows "system_rows (snd (add_message io d cid r body dur)) = system_rows d"
    and "map conv_id (conversations (snd (add_message io d cid r body dur))) = map conv_id (conversations d)"
    and "map status (conversations (snd (add_message io d cid r body dur))) = map status (conversations d)"
proof -
  let ?ok = "failure (io 0) = None \<and> failure (io 1) = None \<and> failure (io 2) = None \<and>
         cid \<in> conversation_ids d"
  have "system_rows (snd (add_message io d cid r body dur)) = system_rows d \<and>
    map conv_id (conversations (snd (add_message io d cid r body dur))) = map conv_id (conversations d) \<and>
    map status (conversations (snd (add_message io d cid r body dur))) = map status (conversations d)"
  proof (cases ?ok)
    case True
    then show ?thesis using assms
      by (simp add: add_message_success system_rows_def message_row_fields map_conv_id_touch
          map_status_touch del: map_map)
  next
    case False
    from add_message_failure[OF this] obtain e
      where "add_message io d cid r body dur = (Inl e, d)" by blast
    then show ?thesis by simp
  qed
  then show "system_rows (snd (add_message io d cid r body dur)) = system_rows d"
    and "map conv_id (conversations (snd (add_message io d cid r body dur))) = map conv_id (conversations d)"
    and "map status (conversations (snd (add_message io d cid r body dur))) = map status (conversations d)"
    by blast+
qed

lemma event_step_refl: "event_step m m"
  by (simp add: event_step_def)

lemma event_step_trans:
  assumes "event_step m m'" "event_step m' m''"
  shows "event_step m m''"
proof -
  from assms(1) obtain acts where a: "out m' = out m @ acts" "list_all is_event_action acts"
    unfolding event_step_def by blast
  from assms(2) obtain acts' where b: "out m'' = out m' @ acts'" "list_all is_event_action acts'"
    unfolding event_step_def by blast
  have "out m'' = out m @ (acts @ acts') \<and> list_all is_event_action (acts @ acts')"
    using a b by simp
  then have "\<exists>acts. out m'' = out m @ acts \<and> list_all is_event_action acts" by blast
  then show ?thesis using assms unfolding event_step_def by simp
qed

lemma event_step_emit: "is_event_action a \<Longrightarrow> event_step m (emit a m)"
  by (simp add: event_step_def emit_fields)

lemma event_step_playback: "event_step m (m\<lparr>playback := q\<rparr>)"
  by (simp add: event_step_def)

lemma event_step_add_message:
  assumes "r \<noteq> ''system''"
  shows "event_step m (snd (db_add_message w m cid r body))"
  using assms
  by (simp add: event_step_def db_add_message_pair after_store_fields add_message_keeps)

lemma save_message_callback_system:
  "save_message_callback w ''system'' body m = emit (Print (SystemText body)) m"
  by (simp add: save_message_callback_def split: option.splits)

lemma event_step_save_message_callback: "event_step m (save_message_callback w r body m)"
proof -
  let ?m1 = "case current_conversation_id m of
           None \<Rightarrow> m
         | Some cid \<Rightarrow>
             if r \<noteq> ''system'' \<and> cid \<noteq> 0
             then (case db_add_message w m cid r body of
                     (Inl e, m') \<Rightarrow> emit (Log ''Failed to save message'') m'
                   | (Inr message_id, m') \<Rightarrow> m')
             else m"
  have first: "event_step m ?m1"
  proof (cases "current_conversation_id m")
    case None
    then show ?thesis by (simp add: event_step_refl)
  next
    case (Some cid)
    show ?thesis
    proof (cases "r \<noteq> ''system'' \<and> cid \<noteq> 0")
      case False
      then show ?thesis using Some by (auto simp: event_step_refl)
    next
      case True
      then have add: "event_step m (snd (db_add_message w m cid r body))"
        by (simp add: event_step_add_message)
      show ?thesis
      proof (cases "db_add_message w m cid r body")
        case (Pair res m')
        with add have step: "event_step m m'" by simp
        show ?thesis
        proof (cases res)
          case (Inl e)
          have "event_step m' (emit (Log ''Failed to save message'') m')"
            by (rule event_step_emit) simp
          with step have "event_step m (emit (Log ''Failed to save message'') m')"
            by (rule event_step_trans)
          then show ?thesis using Some True Pair Inl by simp
        next
          case (Inr mid)
          then show ?thesis using Some True Pair step by simp
        qed
      qed
    qed
  qed
  have second: "event_step ?m1 (save_message_callback w r body m)"
    unfolding save_message_callback_def Let_def
    by (simp add: event_step_refl event_step_emit)
  from first second show ?thesis by (rule event_step_trans)
qed

lemma event_step_notify: "event_step m (notify w n r body m)"
proof (induction n)
  case 0
  show ?case by (simp add: notify_def event_step_refl)
next
  case (Suc n)
  have "notify w (Suc n) r body m = save_message_callback w r body (notify w n r body m)"
    by (simp add: notify_def)
  moreover have "event_step (notify w n r body m) (save_message_callback w r body (notify w n r body m))"
    by (rule event_step_save_message_callback)
  ultimately show ?case using Suc by (simp only: event_step_trans)
qed

lemma event_step_handle_message: "event_step m (handle_message w ev m)"
proof (cases "evi m")
  case None
  then show ?thesis by (simp add: handle_message_def event_step_refl)
next
  case (Some cl)
  have drained: "event_step m (notify w n r body (if audio_stream cl then m\<lparr>playback := []\<rparr> else m))"
    for n r body
  proof -
    have "event_step m (if audio_stream cl then m\<lparr>playback := []\<rparr> else m)"
      by (simp add: event_step_refl event_step_playback)
    then show ?thesis using event_step_notify by (rule event_step_trans)
  qed
  show ?thesis
    unfolding handle_message_def
    using Some drained
    by (simp add: event_step_refl event_step_playback event_step_notify event_step_emit
        split: option.splits)
qed

lemma event_step_run_events: "event_step m (run_events w evs m)"
proof (induction evs arbitrary: m)
  case Nil
  show ?case by (simp add: event_step_refl)
next
  case (Cons ev evs)
  have "event_step m (handle_message w ev m)" by (rule event_step_handle_message)
  moreover have "event_step (handle_message w ev m) (run_events w evs (handle_message w ev m))"
    by (rule Cons.IH)
  ultimately show ?case by (simp only: run_events.simps event_step_trans)
qed


lemma event_step_running: "event_step m (m\<lparr>running := b\<rparr>)"
  by (simp add: event_step_def)

lemma event_step_start_microphone: "event_step m (snd (start_microphone w allow m))"
proof -
  let ?m0 = "emit (MicrophoneStarted allow) m"
  let ?m1 = "run_events w (events w) ?m0"
  have "event_step m ?m0" by (rule event_step_emit) simp
  moreover have "event_step ?m0 ?m1" by (rule event_step_run_events)
  ultimately have base: "event_step m ?m1" by (rule event_step_trans)
  have shut: "event_step ?m1 (snd (handle_exit ?m1))"
  proof -
    have "event_step ?m1 (emit (Print ShuttingDown) ?m1)" by (rule event_step_emit) simp
    moreover have "event_step (emit (Print ShuttingDown) ?m1)
        ((emit (Print ShuttingDown) ?m1)\<lparr>running := False\<rparr>)"
      by (rule event_step_running)
    ultimately show ?thesis unfolding handle_exit_def snd_conv by (rule event_step_trans)
  qed
  have logged: "event_step ?m1 (emit (Log ''Error starting microphone'') ?m1)"
    by (rule event_step_emit) simp
  have "event_step ?m1 (snd (start_microphone w allow m))"
  proof (cases "mic_end w")
    case Returns
    then show ?thesis by (simp add: start_microphone_def event_step_refl)
  next
    case Signal
    then show ?thesis using shut by (simp add: start_microphone_def)
  next
    case (Raises e)
    then show ?thesis using logged
      by (cases e) (simp_all add: start_microphone_def event_step_refl)
  qed
  with base show ?thesis by (rule event_step_trans)
qed

lemma event_step_active_session: "event_step m (snd (active_session w m))"
proof -
  let ?m1 = "emit (Print PressCtrlC) (emit (Print StartingMicrophone) (emit (Print Connected) m))"
  let ?m2 = "?m1\<lparr>running := True\<rparr>"
  let ?allow = "interruption_enabled (cfg ?m2)"
  let ?m3 = "emit (Print (InterruptionSetting ?allow)) ?m2"
  let ?m4 = "emit (Print (if ?allow then InterruptionEnabled else WalkieTalkieMode)) ?m3"
  have "event_step m (emit (Print Connected) m)" by (rule event_step_emit) simp
  moreover have "event_step (emit (Print Connected) m)
      (emit (Print StartingMicrophone) (emit (Print Connected) m))"
    by (rule event_step_emit) simp
  moreover have "event_step (emit (Print StartingMicrophone) (emit (Print Connected) m)) ?m1"
    by (rule event_step_emit) simp
  moreover have "event_step ?m1 ?m2" by (rule event_step_running)
  moreover have "event_step ?m2 ?m3" by (rule event_step_emit) simp
  moreover have "event_step ?m3 ?m4" by (rule event_step_emit) simp
  ultimately have pre: "event_step m ?m4" by (meson event_step_trans)
  have mic: "event_step ?m4 (snd (start_microphone w ?allow ?m4))"
    by (rule event_step_start_microphone)
  have "event_step (snd (start_microphone w ?allow ?m4)) (snd (active_session w m))"
  proof (cases "start_microphone w ?allow ?m4")
    case (Pair r m5)
    have stop: "event_step m5 (emit (Print Stopping) m5)" by (rule event_step_emit) simp
    show ?thesis
    proof (cases r)
      case (Inr u)
      then show ?thesis using Pair by (simp add: active_session_def Let_def event_step_refl)
    next
      case (Inl e)
      then show ?thesis using Pair stop
        by (cases e) (simp_all add: active_session_def Let_def event_step_refl)
    qed
  qed
  with pre mic show ?thesis by (meson event_step_trans)
qed


section \<open>Setting up the conversation\<close>

lemma update_conversation_status_messages:
  "messages (snd (update_conversation_status io d cid st)) = messages d"
  by (simp add: update_conversation_status_unfold split: option.splits)

lemma update_conversation_status_ids:
  "conversation_ids (snd (update_conversation_status io d cid st)) = conversation_ids d"
  unfolding conversation_ids_def
  by (simp add: update_conversation_status_unfold map_conv_id_set_status del: map_map set_map
      split: option.splits)

lemma update_conversation_status_failure:
  assumes "\<not> (failure (io 0) = None \<and> failure (io 1) = None)"
  shows "\<exists>e. update_conversation_status io d cid st = (Inl e, d)"
proof (cases "failure (io 0)")
  case (Some e)
  then show ?thesis by (simp add: update_conversation_status_unfold)
next
  case None
  with assms obtain e where "failure (io 1) = Some e" by auto
  with None show ?thesis by (simp add: update_conversation_status_unfold)
qed

lemma update_conversation_status_success:
  assumes "failure (io 0) = None" "failure (io 1) = None"
  shows "update_conversation_status io d cid st =
     (Inr (),
      d\<lparr>conversations :=
           map (\<lambda>r. if conv_id r = cid then r\<lparr>status := st, updated_at := now (io 0)\<rparr> else r)
               (conversations d)\<rparr>)"
  using assms by (simp add: update_conversation_status_unfold)

lemma create_conversation_messages:
  "messages (snd (create_conversation io local_now d ttl)) = messages d"
  by (simp add: create_conversation_unfold split: option.splits)

lemma new_conversation_cases:
  "(\<exists>e. new_conversation w m = (Inl (raise_sqlite e), after_store CreateConversation (db m) m)) \<or>
   (failure (store_io w (store_ops m) 0) = None \<and> failure (store_io w (store_ops m) 1) = None \<and>
    new_conversation w m =
      (Inr True,
       emit (Print (StartedNew (conv_id (conversation_row (store_io w (store_ops m))
                                           (local_time w (store_ops m)) (db m) None))))
         ((after_store CreateConversation
             (snd (create_conversation (store_io w (store_ops m)) (local_time w (store_ops m))
                     (db m) None)) m)
          \<lparr>current_conversation_id :=
              Some (conv_id (conversation_row (store_io w (store_ops m))
                               (local_time w (store_ops m)) (db m) None))\<rparr>)))"
proof (cases "failure (store_io w (store_ops m) 0) = None \<and> failure (store_io w (store_ops m) 1) = None")
  case True
  then show ?thesis
    by (simp add: new_conversation_def db_create_conversation_pair create_conversation_success)
next
  case False
  from create_conversation_failure[OF this] obtain e
    where "create_conversation (store_io w (store_ops m)) (local_time w (store_ops m)) (db m) None
      = (Inl e, db m)" by blast
  then have "new_conversation w m = (Inl (raise_sqlite e), after_store CreateConversation (db m) m)"
    by (simp add: new_conversation_def db_create_conversation_pair)
  then show ?thesis by blast
qed

lemma resume_conversation_cases:
  "(\<exists>e. resume_conversation w m cid =
          (Inl (raise_sqlite e), after_store (GetConversation cid) (db m) m)) \<or>
   (failure (store_io w (store_ops m) 0) = None \<and>
    find (\<lambda>r. conv_id r = cid) (conversations (db m)) = None \<and>
    resume_conversation w m cid =
      (Inr False, emit (Print (NotFound cid)) (after_store (GetConversation cid) (db m) m))) \<or>
   (\<exists>c. find (\<lambda>r. conv_id r = cid) (conversations (db m)) = Some c \<and>
     (let m1 = (after_store (GetConversation cid) (db m) m)\<lparr>current_conversation_id := Some cid\<rparr>;
          upd = update_conversation_status (store_io w (Suc (store_ops m))) (db m) cid ''active''
      in (\<exists>e. fst upd = Inl e \<and>
               resume_conversation w m cid =
                 (Inl (raise_sqlite e), after_store (UpdateConversationStatus cid ''active'') (snd upd) m1)) \<or>
         (fst upd = Inr () \<and>
          resume_conversation w m cid =
            (Inr True,
             emit (Print (Resumed cid))
               (after_store (UpdateConversationStatus cid ''active'') (snd upd) m1)))))"
proof (cases "failure (store_io w (store_ops m) 0)")
  case (Some e)
  then have "resume_conversation w m cid =
      (Inl (raise_sqlite (OperationalError e)), after_store (GetConversation cid) (db m) m)"
    by (simp add: resume_conversation_def db_get_conversation_pair get_conversation_unfold)
  then show ?thesis by blast
next
  case None
  show ?thesis
  proof (cases "find (\<lambda>r. conv_id r = cid) (conversations (db m))")
    case None
    then show ?thesis using \<open>failure (store_io w (store_ops m) 0) = None\<close>
      by (simp add: resume_conversation_def db_get_conversation_pair get_conversation_unfold)
  next
    case (Some c)
    let ?upd = "update_conversation_status (store_io w (Suc (store_ops m))) (db m) cid ''active''"
    show ?thesis
    proof (cases "fst ?upd")
      case (Inl e)
      then have "resume_conversation w m cid =
          (Inl (raise_sqlite e),
           after_store (UpdateConversationStatus cid ''active'') (snd ?upd)
             ((after_store (GetConversation cid) (db m) m)\<lparr>current_conversation_id := Some cid\<rparr>))"
        using Some \<open>failure (store_io w (store_ops m) 0) = None\<close>
        by (simp add: resume_conversation_def db_get_conversation_pair get_conversation_unfold
            db_update_conversation_status_pair after_store_fields)
      with Inl Some show ?thesis unfolding Let_def by blast
    next
      case (Inr u)
      then have "resume_conversation w m cid =
          (Inr True,
           emit (Print (Resumed cid))
             (after_store (UpdateConversationStatus cid ''active'') (snd ?upd)
               ((after_store (GetConversation cid) (db m) m)\<lparr>current_conversation_id := Some cid\<rparr>)))"
        using Some \<open>failure (store_io w (store_ops m) 0) = None\<close>
        by (simp add: resume_conversation_def db_get_conversation_pair get_conversation_unfold
            db_update_conversation_status_pair after_store_fields)
      with Inr Some show ?thesis unfolding Let_def by simp
    qed
  qed
qed


lemma new_conversation_effect:
  "cfg (snd (new_conversation w m)) = cfg m \<and> evi (snd (new_conversation w m)) = evi m \<and>
   (\<exists>acts. out (snd (new_conversation w m)) = out m @ acts \<and> list_all is_setup_action acts) \<and>
   messages (db (snd (new_conversation w m))) = messages (db m)"
proof -
  from new_conversation_cases[of w m] show ?thesis
  proof (elim disjE exE conjE)
    fix e
    assume "new_conversation w m = (Inl (raise_sqlite e), after_store CreateConversation (db m) m)"
    then show ?thesis by (simp add: after_store_fields)
  next
    assume "new_conversation w m =
      (Inr True,
       emit (Print (StartedNew (conv_id (conversation_row (store_io w (store_ops m))
                                           (local_time w (store_ops m)) (db m) None))))
         ((after_store CreateConversation
             (snd (create_conversation (store_io w (store_ops m)) (local_time w (store_ops m))
                     (db m) None)) m)
          \<lparr>current_conversation_id :=
              Some (conv_id (conversation_row (store_io w (store_ops m))
                               (local_time w (store_ops m)) (db m) None))\<rparr>))"
    then show ?thesis
      by (simp add: after_store_fields emit_fields create_conversation_messages)
  qed
qed

lemma resume_conversation_effect:
  "cfg (snd (resume_conversation w m cid)) = cfg m \<and>
   evi (snd (resume_conversation w m cid)) = evi m \<and>
   (\<exists>acts. out (snd (resume_conversation w m cid)) = out m @ acts \<and>
      list_all is_setup_action acts) \<and>
   messages (db (snd (resume_conversation w m cid))) = messages (db m)"
proof -
  from resume_conversation_cases[of w m cid] show ?thesis
    unfolding Let_def
  proof (elim disjE exE conjE)
    fix e
    assume "resume_conversation w m cid =
          (Inl (raise_sqlite e), after_store (GetConversation cid) (db m) m)"
    then show ?thesis by (simp add: after_store_fields)
  next
    assume "resume_conversation w m cid =
      (Inr False, emit (Print (NotFound cid)) (after_store (GetConversation cid) (db m) m))"
    then show ?thesis by (simp add: after_store_fields emit_fields)
  next
    fix c e
    assume "resume_conversation w m cid =
       (Inl (raise_sqlite e),
        after_store (UpdateConversationStatus cid ''active'')
         (snd (update_conversation_status (store_io w (Suc (store_ops m))) (db m) cid ''active''))
         (after_store (GetConversation cid) (db m) m\<lparr>current_conversation_id := Some cid\<rparr>))"
    then show ?thesis
      by (simp add: after_store_fields update_conversation_status_messages)
  next
    fix c
    assume "resume_conversation w m cid =
       (Inr True,
        emit (Print (Resumed cid))
         (after_store (UpdateConversationStatus cid ''active'')
           (snd (update_conversation_status (store_io w (Suc (store_ops m))) (db m) cid ''active''))
           (after_store (GetConversation cid) (db m) m\<lparr>current_conversation_id := Some cid\<rparr>)))"
    then show ?thesis
      by (simp add: after_store_fields emit_fields update_conversation_status_messages)
  qed
qed

lemma set_up_conversation_effect:
  "cfg (snd (set_up_conversation w m conversation)) = cfg m \<and>
   evi (snd (set_up_conversation w m conversation)) = evi m \<and>
   (\<exists>acts. out (snd (set_up_conversation w m conversation)) = out m @ acts \<and>
      list_all is_setup_action acts) \<and>
   messages (db (snd (set_up_conversation w m conversation))) = messages (db m)"
proof (cases conversation)
  case None
  then show ?thesis using new_conversation_effect[of w m]
    by (simp add: set_up_conversation_def)
next
  case (Some cid)
  then show ?thesis using new_conversation_effect[of w m] resume_conversation_effect[of w m cid]
    by (cases "cid = 0") (simp_all add: set_up_conversation_def)
qed

lemma find_Some_id:
  "find (\<lambda>r. conv_id r = cid) cs = Some c \<Longrightarrow> cid \<in> set (map conv_id cs)"
  by (induction cs) (auto split: if_splits)

lemma set_up_conversation_ready:
  assumes "fst (set_up_conversation w m conversation) = Inr True"
    and "0 \<le> conversations_seq (db m)"
  shows "\<exists>c. current_conversation_id (snd (set_up_conversation w m conversation)) = Some c \<and>
     c \<noteq> 0 \<and> c \<in> conversation_ids (db (snd (set_up_conversation w m conversation)))"
proof -
  have fresh: ?thesis if "set_up_conversation w m conversation = new_conversation w m"
  proof -
    let ?i = "conv_id (conversation_row (store_io w (store_ops m))
                               (local_time w (store_ops m)) (db m) None)"
    from new_conversation_cases[of w m] assms(1) that
    have ok: "failure (store_io w (store_ops m) 0) = None \<and> failure (store_io w (store_ops m) 1) = None"
      and run: "new_conversation w m =
      (Inr True,
       emit (Print (StartedNew ?i))
         ((after_store CreateConversation
             (snd (create_conversation (store_io w (store_ops m)) (local_time w (store_ops m))
                     (db m) None)) m)
          \<lparr>current_conversation_id := Some ?i\<rparr>))"
      by auto
    have pos: "0 < ?i"
      using next_rowid_positive[OF assms(2)] by (simp add: conversation_row_fields)
    have "?i \<in> conversation_ids
        (snd (create_conversation (store_io w (store_ops m)) (local_time w (store_ops m)) (db m) None))"
      using ok by (simp add: create_conversation_success conversation_ids_def)
    then show ?thesis using that run pos
      by (simp add: emit_fields after_store_fields)
  qed
  show ?thesis
  proof (cases conversation)
    case None
    then show ?thesis using fresh by (simp add: set_up_conversation_def)
  next
    case (Some cid)
    show ?thesis
    proof (cases "cid = 0")
      case True
      then show ?thesis using fresh Some by (simp add: set_up_conversation_def)
    next
      case False
      then have eq: "set_up_conversation w m conversation = resume_conversation w m cid"
        using Some by (simp add: set_up_conversation_def)
      let ?upd = "update_conversation_status (store_io w (Suc (store_ops m))) (db m) cid ''active''"
      from resume_conversation_cases[of w m cid] assms(1) eq
      obtain c where found: "find (\<lambda>r. conv_id r = cid) (conversations (db m)) = Some c"
        and run: "resume_conversation w m cid =
            (Inr True,
             emit (Print (Resumed cid))
               (after_store (UpdateConversationStatus cid ''active'') (snd ?upd)
                  ((after_store (GetConversation cid) (db m) m)\<lparr>current_conversation_id := Some cid\<rparr>)))"
        unfolding Let_def by auto
      from found have "cid \<in> conversation_ids (db m)"
        unfolding conversation_ids_def by (rule find_Some_id)
      then have "cid \<in> conversation_ids (snd ?upd)"
        by (simp only: update_conversation_status_ids)
      then show ?thesis using eq run False
        by (simp add: emit_fields after_store_fields)
    qed
  qed
qed

section \<open>The end of a session\<close>

lemma handle_outcome_fields:
  "db (snd (handle_outcome r m)) = db m"
  "cfg (snd (handle_outcome r m)) = cfg m"
  "evi (snd (handle_outcome r m)) = evi m"
  "current_conversation_id (snd (handle_outcome r m)) = current_conversation_id m"
  "store_ops (snd (handle_outcome r m)) = store_ops m"
proof -
  have "db (snd (handle_outcome r m)) = db m \<and> cfg (snd (handle_outcome r m)) = cfg m \<and>
    evi (snd (handle_outcome r m)) = evi m \<and>
    current_conversation_id (snd (handle_outcome r m)) = current_conversation_id m \<and>
    store_ops (snd (handle_outcome r m)) = store_ops m"
  proof (cases r)
    case (Inr u)
    then show ?thesis by (simp add: handle_outcome_def)
  next
    case (Inl e)
    then show ?thesis by (cases e) (simp_all add: handle_outcome_def emit_fields)
  qed
  then show "db (snd (handle_outcome r m)) = db m"
    "cfg (snd (handle_outcome r m)) = cfg m"
    "evi (snd (handle_outcome r m)) = evi m"
    "current_conversation_id (snd (handle_outcome r m)) = current_conversation_id m"
    "store_ops (snd (handle_outcome r m)) = store_ops m"
    by blast+
qed

lemma handle_outcome_out:
  "out (snd (handle_outcome r m)) =
     out m @
     (case r of
        Inr u \<Rightarrow> []
      | Inl KeyboardInterrupt \<Rightarrow> [Print InterruptedByUser]
      | Inl CancelledError \<Rightarrow> []
      | Inl (Exception cls msg) \<Rightarrow>
          if is_session_limit cls msg
          then [Print SessionEnded, Print ConversationSaved, Print ResumeCommand]
          else [Print (ErrorText msg), Log ''Error during conversation''])"
proof (cases r)
  case (Inr u)
  then show ?thesis by (simp add: handle_outcome_def)
next
  case (Inl e)
  then show ?thesis by (cases e) (simp_all add: handle_outcome_def emit_fields)
qed

lemma handle_outcome_result:
  "fst (handle_outcome r m) = (if r = Inl CancelledError then Inl CancelledError else Inr ())"
proof (cases r)
  case (Inr u)
  then show ?thesis by (simp add: handle_outcome_def)
next
  case (Inl e)
  then show ?thesis by (cases e) (simp_all add: handle_outcome_def)
qed

lemma cleanup_fields:
  "cfg (cleanup w m) = cfg m"
  "evi (cleanup w m) = evi m"
  "current_conversation_id (cleanup w m) = current_conversation_id m"
  by (simp_all add: cleanup_def stop_microphone_def emit_fields db_update_conversation_status_pair
      after_store_fields split: option.splits sum.splits)

lemma cleanup_db:
  "db (cleanup w m) =
     (case current_conversation_id m of
        None \<Rightarrow> db m
      | Some c \<Rightarrow>
          if c = 0 then db m
          else snd (update_conversation_status (store_io w (store_ops m)) (db m) c ''paused''))"
  by (simp add: cleanup_def stop_microphone_def emit_fields db_update_conversation_status_pair
      after_store_fields split: option.splits sum.splits)

lemma cleanup_out:
  "out (cleanup w m) =
     out m @
     (case current_conversation_id m of
        None \<Rightarrow> []
      | Some c \<Rightarrow>
          if c = 0 then []
          else Store (UpdateConversationStatus c ''paused'') #
               (case fst (update_conversation_status (store_io w (store_ops m)) (db m) c ''paused'') of
                  Inl e \<Rightarrow> [Log ''Error updating conversation status'']
                | Inr u \<Rightarrow> []))
     @ [MicrophoneStopped, Print Disconnected]"
  by (simp add: cleanup_def stop_microphone_def emit_fields db_update_conversation_status_pair
      after_store_fields split: option.splits sum.splits)

lemma except_finally_pair:
  "except_finally w (r, m) = (fst (handle_outcome r m), cleanup w (snd (handle_outcome r m)))"
  by (simp add: except_finally_def split: prod.splits)


section \<open>The course of a session\<close>

lemma register_callbacks_fields:
  "out (register_callbacks m) = out m"
  "db (register_callbacks m) = db m"
  "cfg (register_callbacks m) = cfg m"
  "current_conversation_id (register_callbacks m) = current_conversation_id m"
  "store_ops (register_callbacks m) = store_ops m"
  by (simp_all add: register_callbacks_def split: option.splits)

lemma register_callbacks_evi:
  "evi m = Some cl \<Longrightarrow>
   evi (register_callbacks m) =
     Some (cl\<lparr>message_callbacks := Suc (message_callbacks cl), audio_stream := True\<rparr>)"
  by (simp add: register_callbacks_def)

lemma connection_scope_closed:
  "channel_open w = Some e \<Longrightarrow> connection_scope w m = (Inl e, m)"
  by (simp add: connection_scope_def)

lemma connection_scope_open:
  "channel_open w = None \<Longrightarrow>
   connection_scope w m =
     ((case close_error w of
         Some e \<Rightarrow> Inl e
       | None \<Rightarrow> fst (active_session w (emit ChannelOpened m))),
      emit ChannelClosed (snd (active_session w (emit ChannelOpened m))))"
  by (simp add: connection_scope_def split: prod.splits option.splits)

lemma session_body_no_client:
  "evi_client_init (hume_api_key (cfg m)) (hume_config_id (cfg m)) = Inl e \<Longrightarrow>
   session_body w m conversation = (Inl e, emit (Print Connecting) m)"
  by (simp add: session_body_def Let_def emit_fields)

lemma session_body_client:
  "evi_client_init (hume_api_key (cfg m)) (hume_config_id (cfg m)) = Inr cl \<Longrightarrow>
   session_body w m conversation =
     (case set_up_conversation w ((emit (Print Connecting) m)\<lparr>evi := Some cl\<rparr>) conversation of
        (Inl e, m2) \<Rightarrow> (Inl e, m2)
      | (Inr False, m2) \<Rightarrow> (Inr (), m2)
      | (Inr True, m2) \<Rightarrow> connection_scope w (register_callbacks m2))"
  by (simp add: session_body_def Let_def emit_fields)

lemma setup_actions_plain:
  "list_all is_setup_action acts \<Longrightarrow>
   teardown_steps acts = [] \<and> ChannelOpened \<notin> set acts \<and> end_reports acts = []"
proof (induction acts)
  case Nil
  show ?case by (simp add: teardown_steps_def end_reports_def)
next
  case (Cons a acts)
  then have a: "is_setup_action a" and rest: "teardown_steps acts = [] \<and> ChannelOpened \<notin> set acts \<and>
      end_reports acts = []"
    by simp_all
  from a have "\<not> is_teardown_step a \<and> a \<noteq> ChannelOpened \<and> \<not> is_end_report a"
    by (cases a rule: is_setup_action.cases) auto
  with rest show ?case by (auto simp: teardown_steps_def end_reports_def)
qed

lemma event_actions_plain:
  "list_all is_event_action acts \<Longrightarrow>
   teardown_steps acts = [] \<and> ChannelOpened \<notin> set acts \<and> end_reports acts = []"
proof (induction acts)
  case Nil
  show ?case by (simp add: teardown_steps_def end_reports_def)
next
  case (Cons a acts)
  then have a: "is_event_action a" and rest: "teardown_steps acts = [] \<and> ChannelOpened \<notin> set acts \<and>
      end_reports acts = []"
    by simp_all
  from a have "\<not> is_teardown_step a \<and> a \<noteq> ChannelOpened \<and> \<not> is_end_report a"
    by (cases a rule: is_event_action.cases) auto
  with rest show ?case by (auto simp: teardown_steps_def end_reports_def)
qed


lemma session_body_active:
  assumes "evi_client_init (hume_api_key (cfg m)) (hume_config_id (cfg m)) = Inr cl"
    and "set_up_conversation w ((emit (Print Connecting) m)\<lparr>evi := Some cl\<rparr>) conversation
           = (Inr True, m2)"
    and "channel_open w = None"
  shows "session_body w m conversation =
     ((case close_error w of
         Some e \<Rightarrow> Inl e
       | None \<Rightarrow> fst (active_session w (emit ChannelOpened (register_callbacks m2)))),
      emit ChannelClosed (snd (active_session w (emit ChannelOpened (register_callbacks m2)))))"
  using assms by (simp add: session_body_client connection_scope_open)

lemma session_body_idle:
  assumes "\<not> (\<exists>cl m2. evi_client_init (hume_api_key (cfg m)) (hume_config_id (cfg m)) = Inr cl \<and>
      set_up_conversation w ((emit (Print Connecting) m)\<lparr>evi := Some cl\<rparr>) conversation
        = (Inr True, m2) \<and>
      channel_open w = None)"
  shows "\<exists>pre. out (snd (session_body w m conversation)) = out m @ pre \<and>
      list_all is_setup_action pre"
proof (cases "evi_client_init (hume_api_key (cfg m)) (hume_config_id (cfg m))")
  case (Inl e)
  then have "out (snd (session_body w m conversation)) = out m @ [Print Connecting]"
    by (simp add: session_body_no_client emit_fields)
  moreover have "list_all is_setup_action [Print Connecting]" by simp
  ultimately show ?thesis by blast
next
  case (Inr cl)
  let ?m1 = "(emit (Print Connecting) m)\<lparr>evi := Some cl\<rparr>"
  obtain r m2 where prepared: "set_up_conversation w ?m1 conversation = (r, m2)"
    by (cases "set_up_conversation w ?m1 conversation")
  from set_up_conversation_effect[of w ?m1 conversation] prepared
  obtain acts where acts: "out m2 = out ?m1 @ acts" "list_all is_setup_action acts"
    by auto
  have pre: "out m2 = out m @ (Print Connecting # acts) \<and>
      list_all is_setup_action (Print Connecting # acts)"
    using acts by (simp add: emit_fields)
  have "out (snd (session_body w m conversation)) = out m2"
  proof (cases r)
    case (Inl e)
    then show ?thesis using Inr prepared by (simp add: session_body_client)
  next
    case (Inr ready)
    show ?thesis
    proof (cases ready)
      case False
      then show ?thesis
        using \<open>evi_client_init (hume_api_key (cfg m)) (hume_config_id (cfg m)) = Inr cl\<close>
          prepared Inr
        by (simp add: session_body_client)
    next
      case True
      with assms prepared Inr
        \<open>evi_client_init (hume_api_key (cfg m)) (hume_config_id (cfg m)) = Inr cl\<close>
      obtain e where "channel_open w = Some e" by auto
      then show ?thesis
        using \<open>evi_client_init (hume_api_key (cfg m)) (hume_config_id (cfg m)) = Inr cl\<close>
          prepared Inr True
        by (simp add: session_body_client connection_scope_closed register_callbacks_fields)
    qed
  qed
  with pre show ?thesis by metis
qed

lemma start_conversation_pair:
  "start_conversation w m conversation =
     (fst (handle_outcome (fst (session_body w m conversation)) (snd (session_body w m conversation))),
      cleanup w (snd (handle_outcome (fst (session_body w m conversation))
                        (snd (session_body w m conversation)))))"
  by (cases "session_body w m conversation") (simp add: start_conversation_def except_finally_pair)


lemma handle_outcome_trace:
  "\<exists>acts. out (snd (handle_outcome r m)) = out m @ acts \<and> teardown_steps acts = [] \<and>
     ChannelOpened \<notin> set acts \<and>
     end_reports acts =
       (case r of
          Inl (Exception cls msg) \<Rightarrow>
            if is_session_limit cls msg
            then [Print SessionEnded, Print ConversationSaved, Print ResumeCommand]
            else [Print (ErrorText msg), Log ''Error during conversation'']
        | _ \<Rightarrow> [])"
proof (cases r)
  case (Inr u)
  then show ?thesis
    by (simp add: handle_outcome_out teardown_steps_def end_reports_def)
next
  case (Inl e)
  then show ?thesis
    by (cases e) (simp_all add: handle_outcome_out teardown_steps_def end_reports_def)
qed

lemma set_status_row:
  "row \<in> set (map (\<lambda>r. if conv_id r = cid then r\<lparr>status := st, updated_at := t\<rparr> else r) cs) \<Longrightarrow>
   conv_id row = cid \<Longrightarrow> status row = st"
proof (induction cs)
  case Nil
  then show ?case by simp
next
  case (Cons a cs)
  show ?case
  proof (cases "row = (if conv_id a = cid then a\<lparr>status := st, updated_at := t\<rparr> else a)")
    case True
    then show ?thesis using Cons.prems(2) by (cases "conv_id a = cid") simp_all
  next
    case False
    with Cons.prems(1)
    have "row \<in> set (map (\<lambda>r. if conv_id r = cid then r\<lparr>status := st, updated_at := t\<rparr> else r) cs)"
      by simp
    then show ?thesis using Cons.prems(2) by (rule Cons.IH)
  qed
qed

lemma update_conversation_status_sets:
  assumes "fst (update_conversation_status io d cid st) = Inr u"
  shows "\<forall>row \<in> set (conversations (snd (update_conversation_status io d cid st))).
           conv_id row = cid \<longrightarrow> status row = st"
proof (cases "failure (io 0) = None \<and> failure (io 1) = None")
  case True
  then have eq: "conversations (snd (update_conversation_status io d cid st)) =
      map (\<lambda>r. if conv_id r = cid then r\<lparr>status := st, updated_at := now (io 0)\<rparr> else r)
          (conversations d)"
    by (simp add: update_conversation_status_success)
  show ?thesis
  proof (intro ballI impI)
    fix row
    assume "row \<in> set (conversations (snd (update_conversation_status io d cid st)))"
      and "conv_id row = cid"
    then show "status row = st" unfolding eq by (rule set_status_row)
  qed
next
  case False
  from update_conversation_status_failure[OF this] obtain e
    where "update_conversation_status io d cid st = (Inl e, d)" by blast
  with assms show ?thesis by simp
qed

lemma cleanup_trace:
  assumes "current_conversation_id m = Some c" "c \<noteq> 0"
  shows "\<exists>acts. out (cleanup w m) = out m @ acts \<and> ChannelOpened \<notin> set acts \<and>
     end_reports acts = [] \<and>
     teardown_steps acts = [Store (UpdateConversationStatus c ''paused''), MicrophoneStopped] \<and>
     ((\<forall>row \<in> set (conversations (db (cleanup w m))). conv_id row = c \<longrightarrow> status row = ''paused'')
      \<or> Log ''Error updating conversation status'' \<in> set acts)"
proof (cases "fst (update_conversation_status (store_io w (store_ops m)) (db m) c ''paused'')")
  case (Inl e)
  let ?acts = "[Store (UpdateConversationStatus c ''paused''),
      Log ''Error updating conversation status'', MicrophoneStopped, Print Disconnected]"
  have "out (cleanup w m) = out m @ ?acts"
    using assms Inl by (simp add: cleanup_out)
  moreover have "ChannelOpened \<notin> set ?acts \<and> end_reports ?acts = [] \<and>
     teardown_steps ?acts = [Store (UpdateConversationStatus c ''paused''), MicrophoneStopped] \<and>
     Log ''Error updating conversation status'' \<in> set ?acts"
    by (simp add: teardown_steps_def end_reports_def)
  ultimately show ?thesis by blast
next
  case (Inr u)
  let ?acts = "[Store (UpdateConversationStatus c ''paused''), MicrophoneStopped, Print Disconnected]"
  have "out (cleanup w m) = out m @ ?acts"
    using assms Inr by (simp add: cleanup_out)
  moreover have "ChannelOpened \<notin> set ?acts \<and> end_reports ?acts = [] \<and>
     teardown_steps ?acts = [Store (UpdateConversationStatus c ''paused''), MicrophoneStopped]"
    by (simp add: teardown_steps_def end_reports_def)
  moreover have "\<forall>row \<in> set (conversations (db (cleanup w m))). conv_id row = c \<longrightarrow> status row = ''paused''"
    using update_conversation_status_sets[OF Inr] assms by (simp add: cleanup_db)
  ultimately show ?thesis by blast
qed

lemma cleanup_trace_any:
  "\<exists>acts. out (cleanup w m) = out m @ acts \<and> ChannelOpened \<notin> set acts \<and> end_reports acts = []"
proof (cases "current_conversation_id m")
  case None
  then have "out (cleanup w m) = out m @ [MicrophoneStopped, Print Disconnected]"
    by (simp add: cleanup_out)
  moreover have "ChannelOpened \<notin> set [MicrophoneStopped, Print Disconnected] \<and>
      end_reports [MicrophoneStopped, Print Disconnected] = []"
    by (simp add: end_reports_def)
  ultimately show ?thesis by blast
next
  case (Some c)
  show ?thesis
  proof (cases "c = 0")
    case True
    then have "out (cleanup w m) = out m @ [MicrophoneStopped, Print Disconnected]"
      using Some by (simp add: cleanup_out)
    moreover have "ChannelOpened \<notin> set [MicrophoneStopped, Print Disconnected] \<and>
        end_reports [MicrophoneStopped, Print Disconnected] = []"
      by (simp add: end_reports_def)
    ultimately show ?thesis by blast
  next
    case False
    from cleanup_trace[OF Some False, of w] show ?thesis by blast
  qed
qed


lemma event_step_ids:
  "event_step m m' \<Longrightarrow> conversation_ids (db m') = conversation_ids (db m)"
  unfolding event_step_def conversation_ids_def by (metis set_map)

text \<open>
  The actions of a run that reaches the open channel: setting up, the opening, the
  session, the closing, then the report of the outcome and the cleanup.
\<close>

lemma active_run_shape:
  assumes init: "evi_client_init (hume_api_key (cfg m)) (hume_config_id (cfg m)) = Inr cl"
    and prepared: "set_up_conversation w ((emit (Print Connecting) m)\<lparr>evi := Some cl\<rparr>) conversation
           = (Inr True, m2)"
    and opened: "channel_open w = None"
  shows "\<exists>pre acts m5.
     session_body w m conversation =
       ((case close_error w of
           Some e \<Rightarrow> Inl e
         | None \<Rightarrow> fst (active_session w (emit ChannelOpened (register_callbacks m2)))), m5) \<and>
     m5 = emit ChannelClosed (snd (active_session w (emit ChannelOpened (register_callbacks m2)))) \<and>
     out m5 = out m @ pre @ [ChannelOpened] @ acts @ [ChannelClosed] \<and>
     list_all is_setup_action pre \<and> list_all is_event_action acts \<and>
     current_conversation_id m5 = current_conversation_id m2 \<and>
     conversation_ids (db m5) = conversation_ids (db m2)"
proof -
  let ?m1 = "(emit (Print Connecting) m)\<lparr>evi := Some cl\<rparr>"
  let ?m3 = "emit ChannelOpened (register_callbacks m2)"
  let ?m5 = "emit ChannelClosed (snd (active_session w ?m3))"
  from set_up_conversation_effect[of w ?m1 conversation] prepared
  obtain sacts where sacts: "out m2 = out ?m1 @ sacts" "list_all is_setup_action sacts"
    by auto
  have step: "event_step ?m3 (snd (active_session w ?m3))"
    by (rule event_step_active_session)
  then obtain acts where acts: "out (snd (active_session w ?m3)) = out ?m3 @ acts"
      "list_all is_event_action acts"
    unfolding event_step_def by blast
  have body: "session_body w m conversation =
       ((case close_error w of
           Some e \<Rightarrow> Inl e
         | None \<Rightarrow> fst (active_session w ?m3)), ?m5)"
    using init prepared opened by (rule session_body_active)
  have trace: "out ?m5 = out m @ (Print Connecting # sacts) @ [ChannelOpened] @ acts @ [ChannelClosed]"
    using sacts(1) acts(1) by (simp add: emit_fields register_callbacks_fields)
  have pre: "list_all is_setup_action (Print Connecting # sacts)"
    using sacts(2) by simp
  have cur: "current_conversation_id ?m5 = current_conversation_id m2"
    using step unfolding event_step_def
    by (simp add: emit_fields register_callbacks_fields)
  have ids: "conversation_ids (db ?m5) = conversation_ids (db m2)"
    using event_step_ids[OF step] by (simp add: emit_fields register_callbacks_fields)
  from body trace pre acts(2) cur ids show ?thesis by blast
qed

lemma run_actions_eq:
  "out (snd (start_conversation w m conversation)) = out m @ acts \<Longrightarrow>
   run_actions w m conversation = acts"
  by (simp add: run_actions_def)

lemma teardown_steps_append: "teardown_steps (xs @ ys) = teardown_steps xs @ teardown_steps ys"
  by (simp add: teardown_steps_def)

lemma end_reports_append: "end_reports (xs @ ys) = end_reports xs @ end_reports ys"
  by (simp add: end_reports_def)

text \<open>
  A run that sets up a conversation with a non-zero id and opens the channel: it closes
  the channel, then sets the status to \<^verbatim>\<open>paused\<close>, then stops the microphone.
\<close>

lemma active_run_teardown:
  assumes init: "evi_client_init (hume_api_key (cfg m)) (hume_config_id (cfg m)) = Inr cl"
    and prepared: "set_up_conversation w ((emit (Print Connecting) m)\<lparr>evi := Some cl\<rparr>) conversation
           = (Inr True, m2)"
    and opened: "channel_open w = None"
    and cur: "current_conversation_id m2 = Some c"
    and c: "c \<noteq> 0"
  shows "ChannelOpened \<in> set (run_actions w m conversation) \<and>
     current_conversation_id (snd (start_conversation w m conversation)) = Some c \<and>
     teardown_steps (run_actions w m conversation) =
       [ChannelClosed, Store (UpdateConversationStatus c ''paused''), MicrophoneStopped] \<and>
     ((\<forall>row \<in> set (conversations (db (snd (start_conversation w m conversation)))).
          conv_id row = c \<longrightarrow> status row = ''paused'')
      \<or> Log ''Error updating conversation status'' \<in> set (run_actions w m conversation))"
proof -
  let ?r = "fst (session_body w m conversation)"
  let ?m' = "snd (session_body w m conversation)"
  let ?h = "snd (handle_outcome ?r ?m')"
  have final: "snd (start_conversation w m conversation) = cleanup w ?h"
    by (simp add: start_conversation_pair)
  from handle_outcome_trace[of ?r ?m'] obtain oacts where
    oacts: "out ?h = out ?m' @ oacts" "teardown_steps oacts = []"
    by blast
  from active_run_shape[OF init prepared opened] obtain pre acts where
    trace: "out ?m' = out m @ pre @ [ChannelOpened] @ acts @ [ChannelClosed]"
    and pre: "list_all is_setup_action pre"
    and acts: "list_all is_event_action acts"
    and cur': "current_conversation_id ?m' = current_conversation_id m2"
    by auto
  have cur_h: "current_conversation_id ?h = Some c"
    using cur cur' by (simp add: handle_outcome_fields)
  from cleanup_trace[OF cur_h c, of w] obtain cacts where
    cacts: "out (cleanup w ?h) = out ?h @ cacts"
    and steps: "teardown_steps cacts =
        [Store (UpdateConversationStatus c ''paused''), MicrophoneStopped]"
    and paused: "(\<forall>row \<in> set (conversations (db (cleanup w ?h))).
          conv_id row = c \<longrightarrow> status row = ''paused'')
        \<or> Log ''Error updating conversation status'' \<in> set cacts"
    by blast
  have "out (snd (start_conversation w m conversation)) =
      out m @ (pre @ [ChannelOpened] @ acts @ [ChannelClosed] @ oacts @ cacts)"
    using trace oacts(1) cacts by (simp add: final)
  then have run: "run_actions w m conversation =
      pre @ [ChannelOpened] @ acts @ [ChannelClosed] @ oacts @ cacts"
    by (rule run_actions_eq)
  have quiet: "teardown_steps pre = []" "teardown_steps acts = []"
    using setup_actions_plain[OF pre] event_actions_plain[OF acts] by blast+
  have order: "teardown_steps (run_actions w m conversation) =
      [ChannelClosed, Store (UpdateConversationStatus c ''paused''), MicrophoneStopped]"
    unfolding run teardown_steps_append quiet oacts(2) steps
    by (simp add: teardown_steps_def)
  have logged: "(\<forall>row \<in> set (conversations (db (snd (start_conversation w m conversation)))).
        conv_id row = c \<longrightarrow> status row = ''paused'')
    \<or> Log ''Error updating conversation status'' \<in> set (run_actions w m conversation)"
    using paused unfolding run final by auto
  have "current_conversation_id (snd (start_conversation w m conversation)) = Some c"
    using cur_h by (simp add: final cleanup_fields)
  moreover have "ChannelOpened \<in> set (run_actions w m conversation)"
    unfolding run by simp
  ultimately show ?thesis using order logged by blast
qed

text \<open>A run that does not get as far as opening the channel adds no \<open>ChannelOpened\<close>.\<close>

lemma idle_run_not_opened:
  assumes "\<not> (\<exists>cl m2. evi_client_init (hume_api_key (cfg m)) (hume_config_id (cfg m)) = Inr cl \<and>
      set_up_conversation w ((emit (Print Connecting) m)\<lparr>evi := Some cl\<rparr>) conversation
        = (Inr True, m2) \<and>
      channel_open w = None)"
  shows "ChannelOpened \<notin> set (run_actions w m conversation)"
proof -
  let ?r = "fst (session_body w m conversation)"
  let ?m' = "snd (session_body w m conversation)"
  let ?h = "snd (handle_outcome ?r ?m')"
  have final: "snd (start_conversation w m conversation) = cleanup w ?h"
    by (simp add: start_conversation_pair)
  from handle_outcome_trace[of ?r ?m'] obtain oacts where
    oacts: "out ?h = out ?m' @ oacts" "ChannelOpened \<notin> set oacts"
    by blast
  from session_body_idle[OF assms] obtain pre where
    pre: "out ?m' = out m @ pre" "list_all is_setup_action pre"
    by blast
  from cleanup_trace_any[of w ?h] obtain cacts where
    cacts: "out (cleanup w ?h) = out ?h @ cacts" "ChannelOpened \<notin> set cacts"
    by blast
  have "out (snd (start_conversation w m conversation)) = out m @ (pre @ oacts @ cacts)"
    using pre(1) oacts(1) cacts(1) by (simp add: final)
  then have "run_actions w m conversation = pre @ oacts @ cacts"
    by (rule run_actions_eq)
  moreover have "ChannelOpened \<notin> set pre"
    using setup_actions_plain[OF pre(2)] by blast
  ultimately show ?thesis
    using oacts(2) cacts(2) by simp
qed

text \<open>
  Claim C1, as the code has it. Whenever a run of \<^verbatim>\<open>start_conversation\<close> has opened
  the channel (the session was active), however the session ends (Ctrl+C, an exception of
  the audio loop or of the channel, a normal return) and whatever fails, the teardown
  steps of the run are, in this order: the channel is closed (on leaving the
  \<^verbatim>\<open>async with\<close> block), the status of the session's conversation is set to
  \<^verbatim>\<open>paused\<close>, the microphone is stopped. The status update either takes effect or its
  failure is logged; in both cases the microphone is stopped after it.
\<close>

theorem teardown_order:
  assumes active: "ChannelOpened \<in> set (run_actions w m conversation)"
    and seq: "0 \<le> conversations_seq (db m)"
  shows "\<exists>c. current_conversation_id (snd (start_conversation w m conversation)) = Some c \<and>
     c \<noteq> 0 \<and>
     teardown_steps (run_actions w m conversation) =
       [ChannelClosed, Store (UpdateConversationStatus c ''paused''), MicrophoneStopped] \<and>
     ((\<forall>row \<in> set (conversations (db (snd (start_conversation w m conversation)))).
          conv_id row = c \<longrightarrow> status row = ''paused'')
      \<or> Log ''Error updating conversation status'' \<in> set (run_actions w m conversation))"
proof -
  from active idle_run_not_opened[of m w conversation] obtain cl m2 where
    init: "evi_client_init (hume_api_key (cfg m)) (hume_config_id (cfg m)) = Inr cl"
    and prepared: "set_up_conversation w ((emit (Print Connecting) m)\<lparr>evi := Some cl\<rparr>)
        conversation = (Inr True, m2)"
    and opened: "channel_open w = None"
    by blast
  have "fst (set_up_conversation w ((emit (Print Connecting) m)\<lparr>evi := Some cl\<rparr>) conversation)
      = Inr True"
    and "0 \<le> conversations_seq (db ((emit (Print Connecting) m)\<lparr>evi := Some cl\<rparr>))"
    using prepared seq by (simp_all add: emit_fields)
  from set_up_conversation_ready[OF this] prepared
  obtain c where cur: "current_conversation_id m2 = Some c" and c: "c \<noteq> 0"
    by auto
  from active_run_teardown[OF init prepared opened cur c] c show ?thesis by blast
qed



lemma example_client_init:
  "evi_client_init (hume_api_key (cfg (new_manager example_config d)))
     (hume_config_id (cfg (new_manager example_config d))) = Inr example_client"
  by (simp add: evi_client_init_def new_manager_def example_config_def example_client_def)

theorem teardown_order_witness:
  "\<exists>c. current_conversation_id
          (snd (start_conversation timeout_world (new_manager example_config example_database) (Some 2)))
        = Some c \<and>
       teardown_steps (run_actions timeout_world (new_manager example_config example_database) (Some 2)) =
         [ChannelClosed, Store (UpdateConversationStatus c ''paused''), MicrophoneStopped]"
proof -
  let ?m = "new_manager example_config example_database"
  let ?m1 = "(emit (Print Connecting) ?m)\<lparr>evi := Some example_client\<rparr>"
  have "fst (set_up_conversation timeout_world ?m1 (Some 2)) = Inr True"
    by code_simp
  then obtain m2 where prepared: "set_up_conversation timeout_world ?m1 (Some 2) = (Inr True, m2)"
    by (cases "set_up_conversation timeout_world ?m1 (Some 2)") simp
  have "current_conversation_id (snd (set_up_conversation timeout_world ?m1 (Some 2))) = Some 2"
    by code_simp
  then have cur: "current_conversation_id m2 = Some 2" by (simp add: prepared)
  have opened: "channel_open timeout_world = None"
    by (simp add: timeout_world_def example_world_def)
  have active: "ChannelOpened \<in> set (run_actions timeout_world ?m (Some 2))"
    using active_run_teardown[OF example_client_init prepared opened cur] by simp
  have seq: "0 \<le> conversations_seq (db ?m)"
    by (simp add: new_manager_def example_database_def)
  from teardown_order[OF active seq] show ?thesis by blast
qed

text \<open>
  Claim C1 as stated (stop the audio bridge, then close the channel, then set the status)
  fails: in a new conversation ended by Ctrl+C the channel is closed first and the
  microphone is stopped last.
\<close>

theorem teardown_order_counterexample:
  "teardown_steps (run_actions example_world (new_manager example_config empty_database) None) =
     [ChannelClosed, Store (UpdateConversationStatus 1 ''paused''), MicrophoneStopped] \<and>
   teardown_steps (run_actions example_world (new_manager example_config empty_database) None) \<noteq>
     [MicrophoneStopped, ChannelClosed, Store (UpdateConversationStatus 1 ''paused'')]"
proof -
  let ?m = "new_manager example_config empty_database"
  let ?m1 = "(emit (Print Connecting) ?m)\<lparr>evi := Some example_client\<rparr>"
  have "fst (set_up_conversation example_world ?m1 None) = Inr True"
    by code_simp
  then obtain m2 where prepared: "set_up_conversation example_world ?m1 None = (Inr True, m2)"
    by (cases "set_up_conversation example_world ?m1 None") simp
  have "current_conversation_id (snd (set_up_conversation example_world ?m1 None)) = Some 1"
    by code_simp
  then have cur: "current_conversation_id m2 = Some 1" by (simp add: prepared)
  have opened: "channel_open example_world = None"
    by (simp add: example_world_def)
  have "teardown_steps (run_actions example_world ?m None) =
     [ChannelClosed, Store (UpdateConversationStatus 1 ''paused''), MicrophoneStopped]"
    using active_run_teardown[OF example_client_init prepared opened cur] by simp
  then show ?thesis by simp
qed

section \<open>System notifications\<close>

lemma store_calls_emit_print: "store_calls (xs @ [Print p]) = store_calls xs"
  by (simp add: store_calls_def)

lemma notify_system:
  "db (notify w n ''system'' body m) = db m \<and>
   store_calls (out (notify w n ''system'' body m)) = store_calls (out m)"
proof (induction n)
  case 0
  show ?case by (simp add: notify_def)
next
  case (Suc n)
  have "notify w (Suc n) ''system'' body m =
      emit (Print (SystemText body)) (notify w n ''system'' body m)"
    by (simp add: notify_def save_message_callback_system)
  then show ?case using Suc by (simp add: emit_fields store_calls_emit_print)
qed

lemma handle_message_other:
  assumes "ev_type ev \<noteq> ''user_message''" "ev_type ev \<noteq> ''assistant_message''"
  shows "db (handle_message w ev m) = db m \<and>
     store_calls (out (handle_message w ev m)) = store_calls (out m)"
proof (cases "evi m")
  case None
  then show ?thesis by (simp add: handle_message_def)
next
  case (Some cl)
  show ?thesis
  proof (cases "ev_type ev = ''audio_output''")
    case True
    then show ?thesis using Some
      by (simp add: handle_message_def emit_fields store_calls_def split: option.splits)
  next
    case False
    note not_audio = this
    show ?thesis
    proof (cases "ev_type ev = ''user_interruption''")
      case True
      then have "handle_message w ev m =
          notify w (message_callbacks cl) ''system'' ''[Interrupted]''
            (if audio_stream cl then m\<lparr>playback := []\<rparr> else m)"
        using Some by (simp add: handle_message_def)
      then show ?thesis
        using notify_system[of w "message_callbacks cl" "''[Interrupted]''"
            "if audio_stream cl then m\<lparr>playback := []\<rparr> else m"]
        by simp
    next
      case False
      then have "handle_message w ev m =
          notify w (message_callbacks cl) ''system'' (''['' @ ev_type ev @ '']'') m"
        using Some not_audio assms by (simp add: handle_message_def)
      then show ?thesis
        using notify_system[of w "message_callbacks cl" "''['' @ ev_type ev @ '']''" m]
        by simp
    qed
  qed
qed

lemma cleanup_system_rows: "system_rows (db (cleanup w m)) = system_rows (db m)"
  by (simp add: cleanup_db system_rows_def update_conversation_status_messages
      split: option.splits)

lemma session_body_system_rows:
  "system_rows (db (snd (session_body w m conversation))) = system_rows (db m)"
proof (cases "evi_client_init (hume_api_key (cfg m)) (hume_config_id (cfg m))")
  case (Inl e)
  then show ?thesis by (simp add: session_body_no_client emit_fields)
next
  case (Inr cl)
  let ?m1 = "(emit (Print Connecting) m)\<lparr>evi := Some cl\<rparr>"
  obtain r m2 where prepared: "set_up_conversation w ?m1 conversation = (r, m2)"
    by (cases "set_up_conversation w ?m1 conversation")
  from set_up_conversation_effect[of w ?m1 conversation] prepared
  have "messages (db m2) = messages (db ?m1)" by simp
  then have rows: "system_rows (db m2) = system_rows (db m)"
    by (simp add: system_rows_def emit_fields)
  have scope: "system_rows (db (snd (connection_scope w (register_callbacks m2)))) = system_rows (db m2)"
  proof (cases "channel_open w")
    case (Some e)
    then show ?thesis by (simp add: connection_scope_closed register_callbacks_fields)
  next
    case None
    let ?m3 = "emit ChannelOpened (register_callbacks m2)"
    have "event_step ?m3 (snd (active_session w ?m3))" by (rule event_step_active_session)
    then have "system_rows (db (snd (active_session w ?m3))) = system_rows (db ?m3)"
      unfolding event_step_def by blast
    then show ?thesis using None
      by (simp add: connection_scope_open emit_fields register_callbacks_fields)
  qed
  show ?thesis
  proof (cases r)
    case (Inl e)
    then show ?thesis using Inr prepared rows by (simp add: session_body_client)
  next
    case (Inr ready)
    then show ?thesis
      using \<open>evi_client_init (hume_api_key (cfg m)) (hume_config_id (cfg m)) = Inr cl\<close>
        prepared rows scope
      by (cases ready) (simp_all add: session_body_client)
  qed
qed

lemma start_conversation_system_rows:
  "system_rows (db (snd (start_conversation w m conversation))) = system_rows (db m)"
  by (simp add: start_conversation_pair cleanup_system_rows handle_outcome_fields
      session_body_system_rows)

text \<open>
  Claim C4. The callback \<^verbatim>\<open>_save_message_callback\<close> called with the role
  \<^verbatim>\<open>system\<close> only prints: it makes no call on the store and leaves the database file
  as it is. An event that is neither a user nor an assistant transcript (an interruption,
  an audio frame, an unknown kind) makes no call on the store either. In every run of
  \<^verbatim>\<open>start_conversation\<close>, and in the handling of every event, the stored messages with
  the role \<^verbatim>\<open>system\<close> are the ones that were there before.
\<close>

theorem system_messages_not_persisted:
  "save_message_callback w ''system'' body m = emit (Print (SystemText body)) m \<and>
   store_calls (out (save_message_callback w ''system'' body m)) = store_calls (out m) \<and>
   db (save_message_callback w ''system'' body m) = db m \<and>
   (ev_type ev \<noteq> ''user_message'' \<and> ev_type ev \<noteq> ''assistant_message'' \<longrightarrow>
      db (handle_message w ev m) = db m \<and>
      store_calls (out (handle_message w ev m)) = store_calls (out m)) \<and>
   system_rows (db (handle_message w ev m)) = system_rows (db m) \<and>
   system_rows (db (snd (start_conversation w m conversation))) = system_rows (db m)"
proof -
  have "event_step m (handle_message w ev m)" by (rule event_step_handle_message)
  then have "system_rows (db (handle_message w ev m)) = system_rows (db m)"
    unfolding event_step_def by blast
  then show ?thesis
    using handle_message_other[of ev w m] start_conversation_system_rows[of w m conversation]
    by (simp add: save_message_callback_system emit_fields store_calls_emit_print)
qed


theorem system_messages_not_persisted_witness:
  "db (handle_message example_world
         \<lparr>ev_type = ''user_interruption'', ev_data = [], ev_content = []\<rparr>
         ((new_manager example_config example_database)\<lparr>evi := Some example_client,
            current_conversation_id := Some 1\<rparr>))
     = example_database \<and>
   system_rows (db (snd (start_conversation example_world
       (new_manager example_config empty_database) None))) = []"
proof -
  have kind: "ev_type \<lparr>ev_type = ''user_interruption'', ev_data = [], ev_content = []\<rparr>
        \<noteq> ''user_message'' \<and>
      ev_type \<lparr>ev_type = ''user_interruption'', ev_data = [], ev_content = []\<rparr>
        \<noteq> ''assistant_message''"
    by simp
  have none: "system_rows (db (new_manager example_config empty_database)) = []"
    by (simp add: system_rows_def new_manager_def empty_database_def)
  have base: "db ((new_manager example_config example_database)\<lparr>evi := Some example_client,
            current_conversation_id := Some 1\<rparr>) = example_database"
    by (simp add: new_manager_def)
  from system_messages_not_persisted[where w = example_world
      and ev = "\<lparr>ev_type = ''user_interruption'', ev_data = [], ev_content = []\<rparr>"
      and m = "(new_manager example_config example_database)\<lparr>evi := Some example_client,
            current_conversation_id := Some 1\<rparr>"] kind base
  have first: "db (handle_message example_world
         \<lparr>ev_type = ''user_interruption'', ev_data = [], ev_content = []\<rparr>
         ((new_manager example_config example_database)\<lparr>evi := Some example_client,
            current_conversation_id := Some 1\<rparr>))
     = example_database"
    by simp
  from system_messages_not_persisted[where w = example_world
      and m = "new_manager example_config empty_database" and conversation = None] none
  have second: "system_rows (db (snd (start_conversation example_world
       (new_manager example_config empty_database) None))) = []"
    by simp
  from first second show ?thesis by blast
qed

section \<open>What a session persists\<close>

lemma spoken_Cons:
  "spoken (ev # evs) =
     (if ev_type ev = ''user_message'' then [(''user'', ev_content ev)]
      else if ev_type ev = ''assistant_message'' then [(''assistant'', ev_content ev)]
      else []) @ spoken evs"
  by (simp add: spoken_def)

lemma save_message_callback_persists:
  assumes "current_conversation_id m = Some c" "c \<noteq> 0" "c \<in> conversation_ids (db m)"
    and "r \<noteq> ''system''"
    and "\<forall>k i. failure (store_io w k i) = None"
  shows "messages (db (save_message_callback w r body m)) =
     messages (db m) @ [message_row (store_io w (store_ops m)) (db m) c r body None]"
proof -
  have "messages (snd (add_message (store_io w (store_ops m)) (db m) c r body None)) =
      messages (db m) @ [message_row (store_io w (store_ops m)) (db m) c r body None]"
    using assms(3,5) by (simp add: add_message_success_rows)
  moreover have "\<exists>mid. fst (add_message (store_io w (store_ops m)) (db m) c r body None) = Inr mid"
    using assms(3,5) by (simp add: add_message_success)
  ultimately show ?thesis
    using assms(1,2,4)
    by (auto simp: save_message_callback_def db_add_message_pair after_store_fields emit_fields
        Let_def)
qed

lemma handle_message_persists:
  assumes "evi m = Some cl" "message_callbacks cl = Suc 0"
    and "current_conversation_id m = Some c" "c \<noteq> 0" "c \<in> conversation_ids (db m)"
    and "\<forall>k i. failure (store_io w k i) = None"
  shows "map (\<lambda>x. (conversation_id x, role x, content x)) (messages (db (handle_message w ev m))) =
     map (\<lambda>x. (conversation_id x, role x, content x)) (messages (db m)) @
     map (\<lambda>(r, body). (c, r, body)) (spoken [ev])"
proof -
  have one: "notify w (Suc 0) r body m = save_message_callback w r body m" for r body
    by (simp add: notify_def)
  show ?thesis
  proof (cases "ev_type ev = ''user_message''")
    case True
    then have "handle_message w ev m = save_message_callback w ''user'' (ev_content ev) m"
      using assms(1,2) by (simp add: handle_message_def one)
    then show ?thesis
      using True save_message_callback_persists[OF assms(3,4,5) _ assms(6), of "''user''" "ev_content ev"]
      by (simp add: spoken_Cons message_row_fields spoken_def)
  next
    case False
    note not_user = this
    show ?thesis
    proof (cases "ev_type ev = ''assistant_message''")
      case True
      then have "handle_message w ev m = save_message_callback w ''assistant'' (ev_content ev) m"
        using assms(1,2) by (simp add: handle_message_def one)
      then show ?thesis
        using True save_message_callback_persists[OF assms(3,4,5) _ assms(6), of "''assistant''" "ev_content ev"]
        by (simp add: spoken_Cons message_row_fields spoken_def)
    next
      case False
      then have "db (handle_message w ev m) = db m"
        using not_user handle_message_other[of ev w m] by blast
      then show ?thesis using False not_user by (simp add: spoken_Cons spoken_def)
    qed
  qed
qed

lemma run_events_persists:
  assumes "evi m = Some cl" "message_callbacks cl = Suc 0"
    and "current_conversation_id m = Some c" "c \<noteq> 0" "c \<in> conversation_ids (db m)"
    and "\<forall>k i. failure (store_io w k i) = None"
  shows "map (\<lambda>x. (conversation_id x, role x, content x)) (messages (db (run_events w evs m))) =
     map (\<lambda>x. (conversation_id x, role x, content x)) (messages (db m)) @
     map (\<lambda>(r, body). (c, r, body)) (spoken evs)"
  using assms
proof (induction evs arbitrary: m)
  case Nil
  show ?case by (simp add: spoken_def)
next
  case (Cons ev evs)
  let ?m1 = "handle_message w ev m"
  have step: "event_step m ?m1" by (rule event_step_handle_message)
  then have same: "evi ?m1 = Some cl" "current_conversation_id ?m1 = Some c"
    using Cons.prems(1,3) unfolding event_step_def by simp_all
  have ids: "c \<in> conversation_ids (db ?m1)"
    using event_step_ids[OF step] Cons.prems(5) by simp
  have first: "map (\<lambda>x. (conversation_id x, role x, content x)) (messages (db ?m1)) =
     map (\<lambda>x. (conversation_id x, role x, content x)) (messages (db m)) @
     map (\<lambda>(r, body). (c, r, body)) (spoken [ev])"
    using Cons.prems by (rule handle_message_persists)
  have rest: "map (\<lambda>x. (conversation_id x, role x, content x)) (messages (db (run_events w evs ?m1))) =
     map (\<lambda>x. (conversation_id x, role x, content x)) (messages (db ?m1)) @
     map (\<lambda>(r, body). (c, r, body)) (spoken evs)"
    using same(1) Cons.prems(2) same(2) Cons.prems(4) ids Cons.prems(6) by (rule Cons.IH)
  have split: "spoken (ev # evs) = spoken [ev] @ spoken evs"
    by (simp add: spoken_def)
  show ?case
    unfolding run_events.simps rest first split by simp
qed


lemma start_microphone_db:
  "db (snd (start_microphone w allow m)) =
     db (run_events w (events w) (emit (MicrophoneStarted allow) m))"
proof (cases "mic_end w")
  case Returns
  then show ?thesis by (simp add: start_microphone_def)
next
  case Signal
  then show ?thesis by (simp add: start_microphone_def handle_exit_def emit_fields)
next
  case (Raises e)
  then show ?thesis by (cases e) (simp_all add: start_microphone_def emit_fields)
qed

lemma start_microphone_raises:
  "mic_end w = Raises (Exception cls msg) \<Longrightarrow>
   fst (start_microphone w allow m) = Inl (Exception cls msg)"
  by (simp add: start_microphone_def)

lemma active_session_raises:
  "mic_end w = Raises (Exception cls msg) \<Longrightarrow>
   fst (active_session w m) = Inl (Exception cls msg)"
proof -
  assume a: "mic_end w = Raises (Exception cls msg)"
  let ?m1 = "emit (Print PressCtrlC) (emit (Print StartingMicrophone) (emit (Print Connected) m))"
  let ?m2 = "?m1\<lparr>running := True\<rparr>"
  let ?allow = "interruption_enabled (cfg ?m2)"
  let ?m4 = "emit (Print (if ?allow then InterruptionEnabled else WalkieTalkieMode))
      (emit (Print (InterruptionSetting ?allow)) ?m2)"
  obtain r m5 where run: "start_microphone w ?allow ?m4 = (r, m5)"
    by (cases "start_microphone w ?allow ?m4")
  with start_microphone_raises[OF a, of ?allow ?m4] have "r = Inl (Exception cls msg)" by simp
  then show ?thesis using run by (simp add: active_session_def Let_def)
qed

lemma active_session_db:
  "db (snd (active_session w m)) =
     db (run_events w (events w)
           (emit (MicrophoneStarted (interruption_enabled (cfg m)))
              (emit (Print (if interruption_enabled (cfg m) then InterruptionEnabled
                            else WalkieTalkieMode))
                 (emit (Print (InterruptionSetting (interruption_enabled (cfg m))))
                    ((emit (Print PressCtrlC)
                        (emit (Print StartingMicrophone) (emit (Print Connected) m)))
                     \<lparr>running := True\<rparr>)))))"
proof -
  let ?m1 = "emit (Print PressCtrlC) (emit (Print StartingMicrophone) (emit (Print Connected) m))"
  let ?m2 = "?m1\<lparr>running := True\<rparr>"
  let ?allow = "interruption_enabled (cfg ?m2)"
  let ?m4 = "emit (Print (if ?allow then InterruptionEnabled else WalkieTalkieMode))
      (emit (Print (InterruptionSetting ?allow)) ?m2)"
  have allow: "?allow = interruption_enabled (cfg m)" by (simp add: emit_fields)
  obtain r m5 where run: "start_microphone w ?allow ?m4 = (r, m5)"
    by (cases "start_microphone w ?allow ?m4")
  have "db (snd (active_session w m)) = db m5"
  proof (cases r)
    case (Inr u)
    then show ?thesis using run by (simp add: active_session_def Let_def)
  next
    case (Inl e)
    then show ?thesis using run
      by (cases e) (simp_all add: active_session_def Let_def emit_fields)
  qed
  also have "\<dots> = db (snd (start_microphone w ?allow ?m4))" by (simp only: run snd_conv)
  also have "\<dots> = db (run_events w (events w) (emit (MicrophoneStarted ?allow) ?m4))"
    by (rule start_microphone_db)
  finally show ?thesis by (simp add: emit_fields)
qed

lemma active_session_persists:
  assumes "evi m = Some cl" "message_callbacks cl = Suc 0"
    and "current_conversation_id m = Some c" "c \<noteq> 0" "c \<in> conversation_ids (db m)"
    and "\<forall>k i. failure (store_io w k i) = None"
  shows "map (\<lambda>x. (conversation_id x, role x, content x)) (messages (db (snd (active_session w m)))) =
     map (\<lambda>x. (conversation_id x, role x, content x)) (messages (db m)) @
     map (\<lambda>(r, body). (c, r, body)) (spoken (events w))"
proof -
  let ?start = "emit (MicrophoneStarted (interruption_enabled (cfg m)))
              (emit (Print (if interruption_enabled (cfg m) then InterruptionEnabled
                            else WalkieTalkieMode))
                 (emit (Print (InterruptionSetting (interruption_enabled (cfg m))))
                    ((emit (Print PressCtrlC)
                        (emit (Print StartingMicrophone) (emit (Print Connected) m)))
                     \<lparr>running := True\<rparr>)))"
  have "evi ?start = Some cl" "current_conversation_id ?start = Some c"
    "c \<in> conversation_ids (db ?start)" "db ?start = db m"
    using assms(1,3,5) by (simp_all add: emit_fields)
  then show ?thesis
    using run_events_persists[of ?start cl c w "events w"] assms(2,4,6)
    by (simp add: active_session_db)
qed

lemma find_present:
  "cid \<in> set (map conv_id cs) \<Longrightarrow> \<exists>c. find (\<lambda>r. conv_id r = cid) cs = Some c"
  by (induction cs) auto

text \<open>With a store that does not fail, setting up a new or an existing conversation succeeds.\<close>

lemma set_up_conversation_succeeds:
  assumes quiet: "\<forall>k i. failure (store_io w k i) = None"
    and target: "conversation = None \<or> conversation = Some 0 \<or>
      (\<exists>cid. conversation = Some cid \<and> cid \<in> conversation_ids (db m))"
  shows "fst (set_up_conversation w m conversation) = Inr True"
proof -
  have fresh: "fst (new_conversation w m) = Inr True"
    using quiet
    by (simp add: new_conversation_def db_create_conversation_pair create_conversation_success)
  have found: "fst (resume_conversation w m cid) = Inr True" if "cid \<in> conversation_ids (db m)" for cid
  proof -
    from that obtain c where "find (\<lambda>r. conv_id r = cid) (conversations (db m)) = Some c"
      unfolding conversation_ids_def using find_present by blast
    then show ?thesis using quiet
      by (simp add: resume_conversation_def db_get_conversation_pair get_conversation_unfold
          db_update_conversation_status_pair update_conversation_status_success after_store_fields)
  qed
  from target show ?thesis
  proof (elim disjE exE conjE)
    assume "conversation = None"
    then show ?thesis using fresh by (simp add: set_up_conversation_def)
  next
    assume "conversation = Some 0"
    then show ?thesis using fresh by (simp add: set_up_conversation_def)
  next
    fix cid
    assume "conversation = Some cid" "cid \<in> conversation_ids (db m)"
    then show ?thesis using fresh found[of cid]
      by (cases "cid = 0") (simp_all add: set_up_conversation_def)
  qed
qed


lemma cleanup_pauses:
  assumes "current_conversation_id m = Some c" "c \<noteq> 0"
    and "failure (store_io w (store_ops m) 0) = None" "failure (store_io w (store_ops m) 1) = None"
  shows "(\<forall>row \<in> set (conversations (db (cleanup w m))). conv_id row = c \<longrightarrow> status row = ''paused'')"
    and "messages (db (cleanup w m)) = messages (db m)"
    and "conversation_ids (db (cleanup w m)) = conversation_ids (db m)"
proof -
  have "fst (update_conversation_status (store_io w (store_ops m)) (db m) c ''paused'') = Inr ()"
    using assms(3,4) by (simp add: update_conversation_status_success)
  from update_conversation_status_sets[OF this]
  show "\<forall>row \<in> set (conversations (db (cleanup w m))). conv_id row = c \<longrightarrow> status row = ''paused''"
    using assms(1,2) by (simp add: cleanup_db)
  show "messages (db (cleanup w m)) = messages (db m)"
    using assms(1,2) by (simp add: cleanup_db update_conversation_status_messages)
  show "conversation_ids (db (cleanup w m)) = conversation_ids (db m)"
    using assms(1,2) by (simp add: cleanup_db update_conversation_status_ids)
qed

text \<open>
  Claim C5. Take a run whose store does not fail, on a new conversation or on an
  existing one, whose channel opens and whose audio loop then ends with an exception of
  the class \<^verbatim>\<open>ConnectionClosedError\<close> or with \<^verbatim>\<open>no close frame\<close> in its message.
  Then \<^verbatim>\<open>start_conversation\<close> returns normally; what it reports about the end is the
  session-limit notice with the resume command, and neither the error line nor the error
  log record of the coordinator; the conversation of the session has the status
  \<^verbatim>\<open>paused\<close>; and the stored messages are those from before the run followed by one
  row for each user or assistant transcript that the channel delivered, in order.
\<close>

theorem no_close_frame_is_timeout:
  assumes client: "hume_api_key (cfg m) \<noteq> []" "hume_config_id (cfg m) \<noteq> []"
    and quiet: "\<forall>k i. failure (store_io w k i) = None"
    and target: "conversation = None \<or> conversation = Some 0 \<or>
      (\<exists>cid. conversation = Some cid \<and> cid \<in> conversation_ids (db m))"
    and seq: "0 \<le> conversations_seq (db m)"
    and opened: "channel_open w = None"
    and ended: "mic_end w = Raises (Exception cls msg)"
    and closed: "close_error w = None"
    and limit: "sublist ''no close frame'' msg \<or> sublist ''ConnectionClosedError'' (str_type cls)"
  shows "fst (start_conversation w m conversation) = Inr () \<and>
     end_reports (run_actions w m conversation) =
       [Print SessionEnded, Print ConversationSaved, Print ResumeCommand] \<and>
     (\<exists>c. current_conversation_id (snd (start_conversation w m conversation)) = Some c \<and>
        c \<in> conversation_ids (db (snd (start_conversation w m conversation))) \<and>
        (\<forall>row \<in> set (conversations (db (snd (start_conversation w m conversation)))).
           conv_id row = c \<longrightarrow> status row = ''paused'') \<and>
        map (\<lambda>x. (conversation_id x, role x, content x))
            (messages (db (snd (start_conversation w m conversation)))) =
          map (\<lambda>x. (conversation_id x, role x, content x)) (messages (db m)) @
          map (\<lambda>(r, body). (c, r, body)) (spoken (events w)))"
proof -
  let ?cl = "\<lparr>api_key = hume_api_key (cfg m), config_id = hume_config_id (cfg m),
      message_callbacks = 0, audio_stream = False\<rparr>"
  let ?m1 = "(emit (Print Connecting) m)\<lparr>evi := Some ?cl\<rparr>"
  have init: "evi_client_init (hume_api_key (cfg m)) (hume_config_id (cfg m)) = Inr ?cl"
    using client by (simp add: evi_client_init_def)
  have target1: "conversation = None \<or> conversation = Some 0 \<or>
      (\<exists>cid. conversation = Some cid \<and> cid \<in> conversation_ids (db ?m1))"
    using target by (simp add: emit_fields)
  have ready: "fst (set_up_conversation w ?m1 conversation) = Inr True"
    using quiet target1 by (rule set_up_conversation_succeeds)
  then obtain m2 where prepared: "set_up_conversation w ?m1 conversation = (Inr True, m2)"
    by (cases "set_up_conversation w ?m1 conversation") simp
  have seq1: "0 \<le> conversations_seq (db ?m1)" using seq by (simp add: emit_fields)
  from set_up_conversation_ready[OF ready seq1] prepared
  obtain c where cur: "current_conversation_id m2 = Some c" and c: "c \<noteq> 0"
    and ids: "c \<in> conversation_ids (db m2)"
    by auto
  from set_up_conversation_effect[of w ?m1 conversation] prepared
  have evi2: "evi m2 = Some ?cl" and rows2: "messages (db m2) = messages (db m)"
    by (simp_all add: emit_fields)
  let ?m3 = "emit ChannelOpened (register_callbacks m2)"
  let ?A = "active_session w ?m3"
  let ?cl' = "?cl\<lparr>message_callbacks := Suc (message_callbacks ?cl), audio_stream := True\<rparr>"
  have evi3: "evi ?m3 = Some ?cl'"
    using register_callbacks_evi[OF evi2] by (simp add: emit_fields)
  have once: "message_callbacks ?cl' = Suc 0" by simp
  have cur3: "current_conversation_id ?m3 = Some c"
    using cur by (simp add: emit_fields register_callbacks_fields)
  have ids3: "c \<in> conversation_ids (db ?m3)"
    using ids by (simp add: emit_fields register_callbacks_fields)
  have rows: "map (\<lambda>x. (conversation_id x, role x, content x)) (messages (db (snd ?A))) =
     map (\<lambda>x. (conversation_id x, role x, content x)) (messages (db m)) @
     map (\<lambda>(r, body). (c, r, body)) (spoken (events w))"
    using active_session_persists[OF evi3 once cur3 c ids3 quiet] rows2
    by (simp add: emit_fields register_callbacks_fields)
  have raised: "fst ?A = Inl (Exception cls msg)"
    using ended by (rule active_session_raises)
  let ?m5 = "emit ChannelClosed (snd ?A)"
  have body: "session_body w m conversation = (Inl (Exception cls msg), ?m5)"
    using session_body_active[OF init prepared opened] closed raised by simp
  let ?h = "snd (handle_outcome (Inl (Exception cls msg)) ?m5)"
  have final: "snd (start_conversation w m conversation) = cleanup w ?h"
    and result: "fst (start_conversation w m conversation) = Inr ()"
    by (simp_all add: start_conversation_pair body handle_outcome_result)
  have classified: "is_session_limit cls msg"
    using limit by (auto simp: is_session_limit_def)
  from handle_outcome_trace[of "Inl (Exception cls msg)" ?m5] classified obtain oacts where
    oacts: "out ?h = out ?m5 @ oacts"
      "end_reports oacts = [Print SessionEnded, Print ConversationSaved, Print ResumeCommand]"
    by auto
  from active_run_shape[OF init prepared opened] body obtain pre acts where
    trace: "out ?m5 = out m @ pre @ [ChannelOpened] @ acts @ [ChannelClosed]"
    and pre: "list_all is_setup_action pre"
    and acts: "list_all is_event_action acts"
    and cur5: "current_conversation_id ?m5 = current_conversation_id m2"
    and ids5: "conversation_ids (db ?m5) = conversation_ids (db m2)"
    by auto
  have cur_h: "current_conversation_id ?h = Some c"
    using cur cur5 by (simp add: handle_outcome_fields)
  from cleanup_trace[OF cur_h c, of w] obtain cacts where
    cacts: "out (cleanup w ?h) = out ?h @ cacts" "end_reports cacts = []"
    by blast
  have "out (snd (start_conversation w m conversation)) =
      out m @ (pre @ [ChannelOpened] @ acts @ [ChannelClosed] @ oacts @ cacts)"
    using trace oacts(1) cacts(1) by (simp add: final)
  then have run: "run_actions w m conversation =
      pre @ [ChannelOpened] @ acts @ [ChannelClosed] @ oacts @ cacts"
    by (rule run_actions_eq)
  have plain: "end_reports pre = []" "end_reports acts = []"
    using setup_actions_plain[OF pre] event_actions_plain[OF acts] by blast+
  have reports: "end_reports (run_actions w m conversation) =
      [Print SessionEnded, Print ConversationSaved, Print ResumeCommand]"
    unfolding run end_reports_append plain oacts(2) cacts(2)
    by (simp add: end_reports_def)
  have quiet_h: "failure (store_io w (store_ops ?h) 0) = None"
      "failure (store_io w (store_ops ?h) 1) = None"
    using quiet by simp_all
  have db_h: "db ?h = db (snd ?A)"
    by (simp add: handle_outcome_fields emit_fields)
  have paused: "\<forall>row \<in> set (conversations (db (cleanup w ?h))). conv_id row = c \<longrightarrow> status row = ''paused''"
    and kept: "messages (db (cleanup w ?h)) = messages (db ?h)"
    and same_ids: "conversation_ids (db (cleanup w ?h)) = conversation_ids (db ?h)"
    using cleanup_pauses[OF cur_h c quiet_h] by blast+
  have present: "c \<in> conversation_ids (db (cleanup w ?h))"
    using ids ids5 by (simp add: same_ids handle_outcome_fields)
  have stored: "map (\<lambda>x. (conversation_id x, role x, content x)) (messages (db (cleanup w ?h))) =
          map (\<lambda>x. (conversation_id x, role x, content x)) (messages (db m)) @
          map (\<lambda>(r, body). (c, r, body)) (spoken (events w))"
    using rows by (simp only: kept db_h)
  have current: "current_conversation_id (cleanup w ?h) = Some c"
    using cur_h by (simp add: cleanup_fields)
  show ?thesis
    unfolding final
    using result reports current present paused stored
    unfolding final by blast
qed


theorem no_close_frame_is_timeout_witness:
  "fst (start_conversation timeout_world (new_manager example_config example_database) (Some 2))
     = Inr () \<and>
   end_reports (run_actions timeout_world (new_manager example_config example_database) (Some 2)) =
     [Print SessionEnded, Print ConversationSaved, Print ResumeCommand] \<and>
   (\<exists>c. current_conversation_id
           (snd (start_conversation timeout_world (new_manager example_config example_database) (Some 2)))
         = Some c \<and>
        map (\<lambda>x. (conversation_id x, role x, content x))
            (messages (db (snd (start_conversation timeout_world
                                  (new_manager example_config example_database) (Some 2))))) =
          [(1, ''user'', ''hello''), (1, ''assistant'', ''hi there''),
           (c, ''user'', ''hello''), (c, ''assistant'', ''hi there'')])"
proof -
  let ?m = "new_manager example_config example_database"
  have client: "hume_api_key (cfg ?m) \<noteq> []" "hume_config_id (cfg ?m) \<noteq> []"
    by (simp_all add: new_manager_def example_config_def)
  have quiet: "\<forall>k i. failure (store_io timeout_world k i) = None"
    by (simp add: timeout_world_def example_world_def steady_def)
  have target: "Some 2 = None \<or> Some 2 = Some (0::int) \<or>
      (\<exists>cid. Some 2 = Some cid \<and> cid \<in> conversation_ids (db ?m))"
    by (simp add: new_manager_def conversation_ids_def example_database_def)
  have seq: "0 \<le> conversations_seq (db ?m)"
    by (simp add: new_manager_def example_database_def)
  have opened: "channel_open timeout_world = None"
    and ended: "mic_end timeout_world =
      Raises (Exception ''websockets.exceptions.ConnectionClosedError''
                ''no close frame received or sent'')"
    and closed: "close_error timeout_world = None"
    by (simp_all add: timeout_world_def example_world_def)
  have limit: "sublist ''no close frame'' ''no close frame received or sent'' \<or>
      sublist ''ConnectionClosedError'' (str_type ''websockets.exceptions.ConnectionClosedError'')"
    by (simp add: sublist_Cons_right)
  have before: "map (\<lambda>x. (conversation_id x, role x, content x)) (messages (db ?m)) =
      [(1, ''user'', ''hello''), (1, ''assistant'', ''hi there'')]"
    by (simp add: new_manager_def example_database_def)
  have said: "spoken (events timeout_world) = [(''user'', ''hello''), (''assistant'', ''hi there'')]"
    by (simp add: timeout_world_def example_world_def example_events_def spoken_def)
  from no_close_frame_is_timeout[OF client quiet target seq opened ended closed limit]
  show ?thesis unfolding before said by auto
qed

section \<open>A new conversation whose channel does not open\<close>

lemma map_if_absent:
  "cid \<notin> set (map conv_id cs) \<Longrightarrow> map (\<lambda>r. if conv_id r = cid then f r else r) cs = cs"
  by (induction cs) simp_all

text \<open>
  Claim C10. In a fresh start whose client is built and whose row is created, let the
  opening of the channel raise (any exception), and let the status update of the cleanup
  not fail. Then the channel was never open, and the database file holds the rows it had
  before and, last, the new conversation with the status \<^verbatim>\<open>paused\<close>; no message row
  was added, and (the file respecting its foreign key) the new conversation has no
  messages.
\<close>

theorem failed_fresh_start_leaves_paused_row:
  assumes client: "hume_api_key (cfg m) \<noteq> []" "hume_config_id (cfg m) \<noteq> []"
    and created: "failure (store_io w (store_ops m) 0) = None"
      "failure (store_io w (store_ops m) 1) = None"
    and failed: "channel_open w = Some e"
    and updated: "failure (store_io w (Suc (store_ops m)) 0) = None"
      "failure (store_io w (Suc (store_ops m)) 1) = None"
    and seq: "0 \<le> conversations_seq (db m)"
    and fk: "\<forall>x \<in> set (messages (db m)). conversation_id x \<in> conversation_ids (db m)"
  shows "conversations (db (snd (start_conversation w m None))) =
       conversations (db m) @
       [(conversation_row (store_io w (store_ops m)) (local_time w (store_ops m)) (db m) None)
          \<lparr>status := ''paused'', updated_at := now (store_io w (Suc (store_ops m)) 0)\<rparr>] \<and>
     messages (db (snd (start_conversation w m None))) = messages (db m) \<and>
     messages_of (db (snd (start_conversation w m None)))
       (conv_id (conversation_row (store_io w (store_ops m)) (local_time w (store_ops m)) (db m) None))
       = [] \<and>
     conv_id (conversation_row (store_io w (store_ops m)) (local_time w (store_ops m)) (db m) None)
       \<notin> conversation_ids (db m) \<and>
     ChannelOpened \<notin> set (run_actions w m None)"
proof -
  let ?cl = "\<lparr>api_key = hume_api_key (cfg m), config_id = hume_config_id (cfg m),
      message_callbacks = 0, audio_stream = False\<rparr>"
  let ?m1 = "(emit (Print Connecting) m)\<lparr>evi := Some ?cl\<rparr>"
  let ?io = "store_io w (store_ops m)"
  let ?row = "conversation_row ?io (local_time w (store_ops m)) (db m) None"
  let ?i = "conv_id ?row"
  let ?d1 = "(db m)\<lparr>conversations := conversations (db m) @ [?row], conversations_seq := ?i\<rparr>"
  let ?m2 = "emit (Print (StartedNew ?i))
      ((after_store CreateConversation ?d1 ?m1)\<lparr>current_conversation_id := Some ?i\<rparr>)"
  have init: "evi_client_init (hume_api_key (cfg m)) (hume_config_id (cfg m)) = Inr ?cl"
    using client by (simp add: evi_client_init_def)
  have prepared: "set_up_conversation w ?m1 None = (Inr True, ?m2)"
    using created
    by (simp add: set_up_conversation_def new_conversation_def db_create_conversation_pair
        create_conversation_success emit_fields)
  have body: "session_body w m None = (Inl e, register_callbacks ?m2)"
    using init prepared failed by (simp add: session_body_client connection_scope_closed)
  let ?h = "snd (handle_outcome (Inl e) (register_callbacks ?m2))"
  have final: "snd (start_conversation w m None) = cleanup w ?h"
    by (simp add: start_conversation_pair body)
  have fresh: "?i \<notin> set (map conv_id (conversations (db m)))"
    unfolding conversation_row_fields by (rule next_rowid_fresh)
  have nonzero: "?i \<noteq> 0"
    using next_rowid_positive[OF seq, of "map conv_id (conversations (db m))"]
    by (simp add: conversation_row_fields)
  have cur: "current_conversation_id ?h = Some ?i"
    and ops: "store_ops ?h = Suc (store_ops m)"
    and dbh: "db ?h = ?d1"
    by (simp_all add: handle_outcome_fields register_callbacks_fields emit_fields after_store_fields)
  have "db (cleanup w ?h) =
      snd (update_conversation_status (store_io w (Suc (store_ops m))) ?d1 ?i ''paused'')"
    using cur nonzero by (simp add: cleanup_db ops dbh)
  also have "\<dots> = ?d1\<lparr>conversations :=
      map (\<lambda>r. if conv_id r = ?i
                then r\<lparr>status := ''paused'', updated_at := now (store_io w (Suc (store_ops m)) 0)\<rparr>
                else r)
          (conversations ?d1)\<rparr>"
    using updated by (simp add: update_conversation_status_success)
  finally have dbf: "db (cleanup w ?h) = ?d1\<lparr>conversations :=
      map (\<lambda>r. if conv_id r = ?i
                then r\<lparr>status := ''paused'', updated_at := now (store_io w (Suc (store_ops m)) 0)\<rparr>
                else r)
          (conversations ?d1)\<rparr>" .
  have convs: "conversations (db (cleanup w ?h)) =
       conversations (db m) @
       [?row\<lparr>status := ''paused'', updated_at := now (store_io w (Suc (store_ops m)) 0)\<rparr>]"
    unfolding dbf using map_if_absent[OF fresh] by simp
  have msgs: "messages (db (cleanup w ?h)) = messages (db m)"
    unfolding dbf by simp
  have absent: "?i \<notin> conversation_ids (db m)"
    using fresh by (simp add: conversation_ids_def)
  have "\<forall>x \<in> set (messages (db m)). conversation_id x \<noteq> ?i"
    using fk absent by metis
  then have empty: "messages_of (db (cleanup w ?h)) ?i = []"
    unfolding messages_of_def msgs by (simp add: filter_empty_conv)
  have idle: "\<not> (\<exists>cl m2. evi_client_init (hume_api_key (cfg m)) (hume_config_id (cfg m)) = Inr cl \<and>
      set_up_conversation w ((emit (Print Connecting) m)\<lparr>evi := Some cl\<rparr>) None = (Inr True, m2) \<and>
      channel_open w = None)"
    using failed by simp
  from idle_run_not_opened[OF idle] convs msgs empty absent show ?thesis
    unfolding final by blast
qed


theorem failed_fresh_start_leaves_paused_row_witness:
  "conversations (db (snd (start_conversation refused_world
                            (new_manager example_config example_database) None))) =
     conversations example_database @
     [\<lparr>conv_id = 3, title = ''Conversation 2024-05-01 10:00:00'', created_at = 10,
       updated_at = 11, status = ''paused''\<rparr>] \<and>
   messages (db (snd (start_conversation refused_world
                       (new_manager example_config example_database) None))) =
     messages example_database \<and>
   messages_of (db (snd (start_conversation refused_world
                          (new_manager example_config example_database) None))) 3 = [] \<and>
   3 \<notin> conversation_ids example_database \<and>
   ChannelOpened \<notin> set (run_actions refused_world (new_manager example_config example_database) None)"
proof -
  let ?m = "new_manager example_config example_database"
  have client: "hume_api_key (cfg ?m) \<noteq> []" "hume_config_id (cfg ?m) \<noteq> []"
    by (simp_all add: new_manager_def example_config_def)
  have ops: "store_ops ?m = 0" and stored: "db ?m = example_database"
    by (simp_all add: new_manager_def)
  have created: "failure (store_io refused_world (store_ops ?m) 0) = None"
      "failure (store_io refused_world (store_ops ?m) 1) = None"
    and updated: "failure (store_io refused_world (Suc (store_ops ?m)) 0) = None"
      "failure (store_io refused_world (Suc (store_ops ?m)) 1) = None"
    by (simp_all add: refused_world_def example_world_def steady_def)
  have failed: "channel_open refused_world =
      Some (Exception ''ConnectionRefusedError'' ''connection refused'')"
    by (simp add: refused_world_def)
  have seq: "0 \<le> conversations_seq (db ?m)"
    by (simp add: new_manager_def example_database_def)
  have fk: "\<forall>x \<in> set (messages (db ?m)). conversation_id x \<in> conversation_ids (db ?m)"
    by (simp add: new_manager_def example_database_def conversation_ids_def)
  have row: "conversation_row (store_io refused_world (store_ops ?m))
        (local_time refused_world (store_ops ?m)) example_database None =
      \<lparr>conv_id = 3, title = ''Conversation 2024-05-01 10:00:00'', created_at = 10,
       updated_at = 10, status = ''active''\<rparr>"
    by (simp add: new_manager_def conversation_row_def next_rowid_def default_title_def
        refused_world_def example_world_def steady_def example_database_def)
  have stamp: "now (store_io refused_world (Suc (store_ops ?m)) 0) = 11"
    by (simp add: ops refused_world_def example_world_def steady_def)
  from failed_fresh_start_leaves_paused_row[OF client created failed updated seq fk]
  show ?thesis unfolding stored row stamp by simp
qed

section \<open>Resuming a conversation that does not exist\<close>

text \<open>
  With an id other than 0 that the store does not hold, a fresh manager reports that the
  conversation was not found and does nothing else: the channel is not opened and the
  database file is as before.
\<close>

lemma find_absent:
  "cid \<notin> set (map conv_id cs) \<Longrightarrow> find (\<lambda>r. conv_id r = cid) cs = None"
  by (induction cs) simp_all

lemma missing_id_not_found:
  assumes client: "hume_api_key (cfg m) \<noteq> []" "hume_config_id (cfg m) \<noteq> []"
    and given: "cid \<noteq> 0"
    and missing: "cid \<notin> conversation_ids (db m)"
    and quiet: "failure (store_io w (store_ops m) 0) = None"
    and fresh: "current_conversation_id m = None"
  shows "fst (start_conversation w m (Some cid)) = Inr ()"
    and "db (snd (start_conversation w m (Some cid))) = db m"
    and "run_actions w m (Some cid) =
      [Print Connecting, Store (GetConversation cid), Print (NotFound cid),
       MicrophoneStopped, Print Disconnected]"
proof -
  let ?cl = "\<lparr>api_key = hume_api_key (cfg m), config_id = hume_config_id (cfg m),
      message_callbacks = 0, audio_stream = False\<rparr>"
  let ?m1 = "(emit (Print Connecting) m)\<lparr>evi := Some ?cl\<rparr>"
  let ?m2 = "emit (Print (NotFound cid)) (after_store (GetConversation cid) (db ?m1) ?m1)"
  have init: "evi_client_init (hume_api_key (cfg m)) (hume_config_id (cfg m)) = Inr ?cl"
    using client by (simp add: evi_client_init_def)
  have absent: "find (\<lambda>r. conv_id r = cid) (conversations (db m)) = None"
    using missing unfolding conversation_ids_def by (rule find_absent)
  have prepared: "set_up_conversation w ?m1 (Some cid) = (Inr False, ?m2)"
    using given quiet absent
    by (simp add: set_up_conversation_def resume_conversation_def db_get_conversation_pair
        get_conversation_unfold emit_fields)
  have body: "session_body w m (Some cid) = (Inr (), ?m2)"
    using init prepared by (simp add: session_body_client)
  have run: "start_conversation w m (Some cid) = (Inr (), cleanup w ?m2)"
    by (simp add: start_conversation_pair body handle_outcome_def)
  have cur: "current_conversation_id ?m2 = None"
    using fresh by (simp add: emit_fields after_store_fields)
  show "fst (start_conversation w m (Some cid)) = Inr ()"
    by (simp add: run)
  show "db (snd (start_conversation w m (Some cid))) = db m"
    unfolding run snd_conv cleanup_db cur by (simp add: emit_fields after_store_fields)
  have "out (snd (start_conversation w m (Some cid))) =
      out m @ [Print Connecting, Store (GetConversation cid), Print (NotFound cid),
       MicrophoneStopped, Print Disconnected]"
    unfolding run snd_conv cleanup_out cur by (simp add: emit_fields after_store_fields)
  then show "run_actions w m (Some cid) =
      [Print Connecting, Store (GetConversation cid), Print (NotFound cid),
       MicrophoneStopped, Print Disconnected]"
    by (rule run_actions_eq)
qed

text \<open>What a run whose channel opens writes after the conversation was set up.\<close>

lemma handle_outcome_reports:
  "\<exists>acts. out (snd (handle_outcome r m)) = out m @ acts \<and> (\<forall>n. Print (NotFound n) \<notin> set acts)"
proof -
  have "\<forall>n. Print (NotFound n) \<notin> set
     (case r of
        Inr u \<Rightarrow> []
      | Inl KeyboardInterrupt \<Rightarrow> [Print InterruptedByUser]
      | Inl CancelledError \<Rightarrow> []
      | Inl (Exception cls msg) \<Rightarrow>
          if is_session_limit cls msg
          then [Print SessionEnded, Print ConversationSaved, Print ResumeCommand]
          else [Print (ErrorText msg), Log ''Error during conversation''])"
    by (simp split: sum.split exn.split)
  then show ?thesis using handle_outcome_out[of r m] by blast
qed

lemma cleanup_reports:
  "\<exists>acts. out (cleanup w m) = out m @ acts \<and> (\<forall>n. Print (NotFound n) \<notin> set acts)"
proof -
  have "\<forall>n. Print (NotFound n) \<notin> set
     ((case current_conversation_id m of
        None \<Rightarrow> []
      | Some c \<Rightarrow>
          if c = 0 then []
          else Store (UpdateConversationStatus c ''paused'') #
               (case fst (update_conversation_status (store_io w (store_ops m)) (db m) c ''paused'') of
                  Inl e \<Rightarrow> [Log ''Error updating conversation status'']
                | Inr u \<Rightarrow> []))
     @ [MicrophoneStopped, Print Disconnected])"
    by (simp split: option.split sum.split)
  then show ?thesis using cleanup_out[of w m] by blast
qed

lemma event_actions_found:
  "list_all is_event_action acts \<Longrightarrow> Print (NotFound n) \<notin> set acts"
  by (induction acts) auto

lemma active_run_trace:
  assumes init: "evi_client_init (hume_api_key (cfg m)) (hume_config_id (cfg m)) = Inr cl"
    and prepared: "set_up_conversation w ((emit (Print Connecting) m)\<lparr>evi := Some cl\<rparr>) conversation
           = (Inr True, m2)"
    and opened: "channel_open w = None"
  shows "\<exists>acts. out (snd (start_conversation w m conversation)) = out m2 @ ChannelOpened # acts \<and>
     (\<forall>n. Print (NotFound n) \<notin> set acts)"
proof -
  let ?m3 = "emit ChannelOpened (register_callbacks m2)"
  let ?A = "active_session w ?m3"
  let ?m5 = "emit ChannelClosed (snd ?A)"
  let ?r = "case close_error w of Some e \<Rightarrow> Inl e | None \<Rightarrow> fst ?A"
  let ?h = "snd (handle_outcome ?r ?m5)"
  have body: "session_body w m conversation = (?r, ?m5)"
    by (rule session_body_active[OF init prepared opened])
  have final: "snd (start_conversation w m conversation) = cleanup w ?h"
    by (simp add: start_conversation_pair body)
  from event_step_active_session[of ?m3 w] obtain acts where
    acts: "out (snd ?A) = out ?m3 @ acts" "list_all is_event_action acts"
    unfolding event_step_def by blast
  from handle_outcome_reports[of ?r ?m5] obtain oacts where
    oacts: "out ?h = out ?m5 @ oacts" "\<forall>n. Print (NotFound n) \<notin> set oacts"
    by blast
  from cleanup_reports[of w ?h] obtain cacts where
    cacts: "out (cleanup w ?h) = out ?h @ cacts" "\<forall>n. Print (NotFound n) \<notin> set cacts"
    by blast
  have "out (cleanup w ?h) = out m2 @ ChannelOpened # (acts @ [ChannelClosed] @ oacts @ cacts)"
    using acts(1) oacts(1) cacts(1) by (simp add: emit_fields register_callbacks_fields)
  moreover have "\<forall>n. Print (NotFound n) \<notin> set (acts @ [ChannelClosed] @ oacts @ cacts)"
    using event_actions_found[OF acts(2)] oacts(2) cacts(2) by simp
  ultimately show ?thesis unfolding final by blast
qed

lemma active_session_signal:
  "mic_end w = Signal \<Longrightarrow> fst (active_session w m) = Inr ()"
  by (simp add: active_session_def Let_def start_microphone_def handle_exit_def)

lemma active_run_store:
  assumes init: "evi_client_init (hume_api_key (cfg m)) (hume_config_id (cfg m)) = Inr cl"
    and prepared: "set_up_conversation w ((emit (Print Connecting) m)\<lparr>evi := Some cl\<rparr>) conversation
           = (Inr True, m2)"
    and opened: "channel_open w = None"
    and quiet: "\<forall>k i. failure (store_io w k i) = None"
    and cur: "current_conversation_id m2 = Some c"
    and c: "c \<noteq> 0"
    and ids: "c \<in> conversation_ids (db m2)"
    and fresh: "message_callbacks cl = 0"
  shows "\<forall>row \<in> set (conversations (db (snd (start_conversation w m conversation)))).
           conv_id row = c \<longrightarrow> status row = ''paused''"
    and "c \<in> conversation_ids (db (snd (start_conversation w m conversation)))"
    and "map (\<lambda>x. (conversation_id x, role x, content x))
           (messages (db (snd (start_conversation w m conversation)))) =
         map (\<lambda>x. (conversation_id x, role x, content x)) (messages (db m2)) @
         map (\<lambda>(r, body). (c, r, body)) (spoken (events w))"
proof -
  let ?m1 = "(emit (Print Connecting) m)\<lparr>evi := Some cl\<rparr>"
  let ?m3 = "emit ChannelOpened (register_callbacks m2)"
  let ?A = "active_session w ?m3"
  let ?m5 = "emit ChannelClosed (snd ?A)"
  let ?r = "case close_error w of Some e \<Rightarrow> Inl e | None \<Rightarrow> fst ?A"
  let ?h = "snd (handle_outcome ?r ?m5)"
  let ?cl' = "cl\<lparr>message_callbacks := Suc (message_callbacks cl), audio_stream := True\<rparr>"
  have body: "session_body w m conversation = (?r, ?m5)"
    by (rule session_body_active[OF init prepared opened])
  have final: "snd (start_conversation w m conversation) = cleanup w ?h"
    by (simp add: start_conversation_pair body)
  from set_up_conversation_effect[of w ?m1 conversation] prepared
  have evi2: "evi m2 = Some cl" by simp
  have evi3: "evi ?m3 = Some ?cl'"
    using register_callbacks_evi[OF evi2] by (simp add: emit_fields)
  have once: "message_callbacks ?cl' = Suc 0" using fresh by simp
  have cur3: "current_conversation_id ?m3 = Some c"
    using cur by (simp add: emit_fields register_callbacks_fields)
  have ids3: "c \<in> conversation_ids (db ?m3)"
    using ids by (simp add: emit_fields register_callbacks_fields)
  have rows: "map (\<lambda>x. (conversation_id x, role x, content x)) (messages (db (snd ?A))) =
     map (\<lambda>x. (conversation_id x, role x, content x)) (messages (db m2)) @
     map (\<lambda>(r, body). (c, r, body)) (spoken (events w))"
    using active_session_persists[OF evi3 once cur3 c ids3 quiet]
    by (simp add: emit_fields register_callbacks_fields)
  from active_run_shape[OF init prepared opened] body
  have cur5: "current_conversation_id ?m5 = current_conversation_id m2"
    and ids5: "conversation_ids (db ?m5) = conversation_ids (db m2)"
    by auto
  have cur_h: "current_conversation_id ?h = Some c"
    using cur cur5 by (simp add: handle_outcome_fields)
  have quiet_h: "failure (store_io w (store_ops ?h) 0) = None"
      "failure (store_io w (store_ops ?h) 1) = None"
    using quiet by simp_all
  have db_h: "db ?h = db (snd ?A)"
    by (simp add: handle_outcome_fields emit_fields)
  have paused: "\<forall>row \<in> set (conversations (db (cleanup w ?h))). conv_id row = c \<longrightarrow> status row = ''paused''"
    and kept: "messages (db (cleanup w ?h)) = messages (db ?h)"
    and same_ids: "conversation_ids (db (cleanup w ?h)) = conversation_ids (db ?h)"
    using cleanup_pauses[OF cur_h c quiet_h] by blast+
  show "\<forall>row \<in> set (conversations (db (snd (start_conversation w m conversation)))).
           conv_id row = c \<longrightarrow> status row = ''paused''"
    unfolding final by (rule paused)
  show "c \<in> conversation_ids (db (snd (start_conversation w m conversation)))"
    unfolding final using ids ids5 by (simp add: same_ids handle_outcome_fields)
  show "map (\<lambda>x. (conversation_id x, role x, content x))
           (messages (db (snd (start_conversation w m conversation)))) =
         map (\<lambda>x. (conversation_id x, role x, content x)) (messages (db m2)) @
         map (\<lambda>(r, body). (c, r, body)) (spoken (events w))"
    unfolding final using rows by (simp only: kept db_h)
qed


text \<open>
  Claim C3 at the id 0. The store holds no conversation 0 (its ids start at 1), but
  \<^verbatim>\<open>resume 0\<close> is not answered with \<^verbatim>\<open>not found\<close>: \<^verbatim>\<open>if not conversation_id\<close> takes
  the number 0 for a missing argument, so the command resumes the last active
  conversation (or starts a new one). On \<open>example_database\<close> it resumes conversation 2:
  the channel is opened, two message rows are added, and the row of conversation 2 is
  changed.
\<close>

theorem resume_zero_resumes_last_active:
  "0 \<notin> conversation_ids example_database \<and>
   cli_resume [] configured_environ example_world example_database (Some 0) =
     cli_resume [] configured_environ example_world example_database None \<and>
   fst (cli_resume [] configured_environ example_world example_database (Some 0)) = Inr () \<and>
   Print (NotFound 0) \<notin>
     set (snd (snd (cli_resume [] configured_environ example_world example_database (Some 0)))) \<and>
   Print (Resumed 2) \<in>
     set (snd (snd (cli_resume [] configured_environ example_world example_database (Some 0)))) \<and>
   ChannelOpened \<in>
     set (snd (snd (cli_resume [] configured_environ example_world example_database (Some 0)))) \<and>
   length (messages example_database) = 2 \<and>
   length (messages (fst (snd (cli_resume [] configured_environ example_world example_database
                                 (Some 0))))) = 4 \<and>
   \<lparr>conv_id = 2, title = ''Second'', created_at = 20, updated_at = 20, status = ''active''\<rparr>
     \<in> set (conversations example_database) \<and>
   \<lparr>conv_id = 2, title = ''Second'', created_at = 20, updated_at = 20, status = ''active''\<rparr>
     \<notin> set (conversations (fst (snd (cli_resume [] configured_environ example_world
                                          example_database (Some 0)))))"
proof -
  let ?w = example_world
  let ?new = "new_manager example_config example_database"
  let ?m = "emit (Print (Resuming 2)) (after_store GetLastActiveConversation example_database ?new)"
  let ?m1 = "(emit (Print Connecting) ?m)\<lparr>evi := Some example_client\<rparr>"
  let ?S = "start_conversation ?w ?m (Some 2)"
  let ?row = "\<lparr>conv_id = 2, title = ''Second'', created_at = 20, updated_at = 20,
      status = ''active''\<rparr>"
  have read: "get_config [] configured_environ = Inr example_config"
    by code_simp
  have last: "fst (get_last_active_conversation (store_io ?w (store_ops ?new)) (db ?new)) =
      Inr (Some ?row)"
    by code_simp
  have last_active: "resume_last_active ?w ?new = ?S"
    by (simp add: resume_last_active_def db_get_last_active_conversation_pair last)
      (simp add: new_manager_def)
  have same: "cli_resume [] configured_environ ?w example_database (Some 0) =
      cli_resume [] configured_environ ?w example_database None"
    by (simp add: cli_resume_def read)
  have run: "cli_resume [] configured_environ ?w example_database (Some 0) =
      (fst ?S, db (snd ?S), out (snd ?S))"
    by (simp add: cli_resume_def read last_active split: prod.split)
  have init: "evi_client_init (hume_api_key (cfg ?m)) (hume_config_id (cfg ?m)) = Inr example_client"
    by (simp add: evi_client_init_def emit_fields after_store_fields new_manager_def
        example_config_def example_client_def)
  have "fst (set_up_conversation ?w ?m1 (Some 2)) = Inr True"
    by code_simp
  then obtain m2 where prepared: "set_up_conversation ?w ?m1 (Some 2) = (Inr True, m2)"
    by (cases "set_up_conversation ?w ?m1 (Some 2)") simp
  have "current_conversation_id (snd (set_up_conversation ?w ?m1 (Some 2))) = Some 2"
    by code_simp
  then have cur: "current_conversation_id m2 = Some 2" by (simp add: prepared)
  have "out (snd (set_up_conversation ?w ?m1 (Some 2))) =
      [Store GetLastActiveConversation, Print (Resuming 2), Print Connecting,
       Store (GetConversation 2), Store (UpdateConversationStatus 2 ''active''),
       Print (Resumed 2)]"
    by code_simp
  then have out2: "out m2 =
      [Store GetLastActiveConversation, Print (Resuming 2), Print Connecting,
       Store (GetConversation 2), Store (UpdateConversationStatus 2 ''active''),
       Print (Resumed 2)]"
    by (simp add: prepared)
  have "map conv_id (conversations (db (snd (set_up_conversation ?w ?m1 (Some 2))))) = [1, 2]"
    by code_simp
  then have ids: "2 \<in> conversation_ids (db m2)"
    by (simp add: prepared conversation_ids_def)
  have "length (messages (db (snd (set_up_conversation ?w ?m1 (Some 2))))) = 2"
    by code_simp
  then have before: "length (messages (db m2)) = 2" by (simp add: prepared)
  have opened: "channel_open ?w = None"
    and quiet: "\<forall>k i. failure (store_io ?w k i) = None"
    by (simp_all add: example_world_def steady_def)
  have fresh: "message_callbacks example_client = 0"
    by (simp add: example_client_def)
  have said: "length (spoken (events ?w)) = 2"
    by (simp add: example_world_def example_events_def spoken_def)
  from active_run_trace[OF init prepared opened] obtain acts where
    trace: "out (snd ?S) = out m2 @ ChannelOpened # acts"
    and plain: "\<forall>n. Print (NotFound n) \<notin> set acts"
    by blast
  have reported: "Print (NotFound 0) \<notin> set (out (snd ?S))"
    and resumed: "Print (Resumed 2) \<in> set (out (snd ?S))"
    and active: "ChannelOpened \<in> set (out (snd ?S))"
    using plain by (simp_all add: trace out2)
  have result: "fst ?S = Inr ()"
  proof -
    have "mic_end ?w = Signal" by (simp add: example_world_def)
    then have "fst (active_session ?w (emit ChannelOpened (register_callbacks m2))) = Inr ()"
      by (rule active_session_signal)
    then show ?thesis
      using session_body_active[OF init prepared opened]
      by (simp add: start_conversation_pair handle_outcome_result example_world_def)
  qed
  have paused: "\<forall>row \<in> set (conversations (db (snd ?S))). conv_id row = 2 \<longrightarrow> status row = ''paused''"
    using active_run_store(1)[OF init prepared opened quiet cur _ ids fresh] by simp
  have changed: "?row \<notin> set (conversations (db (snd ?S)))"
  proof
    assume "?row \<in> set (conversations (db (snd ?S)))"
    with paused have "status ?row = ''paused''" by fastforce
    then show False by simp
  qed
  have "length (map (\<lambda>x. (conversation_id x, role x, content x)) (messages (db (snd ?S)))) =
      length (map (\<lambda>x. (conversation_id x, role x, content x)) (messages (db m2)) @
              map (\<lambda>(r, body). (2, r, body)) (spoken (events ?w)))"
    using active_run_store(3)[OF init prepared opened quiet cur _ ids fresh] by simp
  then have stored: "length (messages (db (snd ?S))) = 4"
    using before said by simp
  have absent: "0 \<notin> conversation_ids example_database"
    and earlier: "length (messages example_database) = 2"
    and present: "?row \<in> set (conversations example_database)"
    by (simp_all add: conversation_ids_def example_database_def)
  show ?thesis
    unfolding run fst_conv snd_conv
    using absent same[unfolded run] result reported resumed active earlier stored present changed
    by blast
qed

end
